theory Spec2Isabelle
  imports Complex_Main "HOL-Library.AList"
begin

section \<open>The autoscaler control loop\<close>

text \<open>
  A shallow embedding of \<^verbatim>\<open>StandardAutoscaler\<close>. Python exceptions are values of the
  type \<open>exn\<close> and a function that may raise returns \<open>exn + 'a\<close> (\<open>Inl\<close> the exception).
  Insertion-ordered Python dicts whose iteration order or values are read
  (\<^verbatim>\<open>updaters\<close>, \<^verbatim>\<open>last_used_time_by_ip\<close>, \<^verbatim>\<open>last_heartbeat_time_by_ip\<close>) are association
  lists handled with \<open>map_of\<close>, \<open>AList.update\<close> and \<open>AList.delete\<close>; dicts that are only
  looked up are maps; a \<^verbatim>\<open>defaultdict(int)\<close> is a total function with value 0 where no key
  was written. Timestamps (Python floats) are idealised as reals. Calls that only log are
  left out.
\<close>

subsection \<open>Data model\<close>

type_synonym node_id = string
type_synonym node_type = string
type_synonym resource_dict = "string \<rightharpoonup> real"
type_synonym 'k pydict_str = "'k \<rightharpoonup> string"

datatype exn =
    KeyError string
  | ValueError string
  | IndexError
  | MaxRetryError
  | ProviderError string

text \<open>\<^verbatim>\<open>isinstance(e, MaxRetryError)\<close>\<close>

fun is_MaxRetryError :: "exn \<Rightarrow> bool" where
  "is_MaxRetryError MaxRetryError = True"
| "is_MaxRetryError _ = False"

text \<open>
  Modelled from the spec: the tag names and values of \<^verbatim>\<open>ray.autoscaler.tags\<close>, which is
  not part of the sources at hand; the spec names the tags \<^verbatim>\<open>RAY_NODE_KIND\<close>,
  \<^verbatim>\<open>RAY_NODE_STATUS\<close>, \<^verbatim>\<open>RAY_USER_NODE_TYPE\<close>, \<^verbatim>\<open>RAY_LAUNCH_CONFIG\<close>,
  \<^verbatim>\<open>RAY_RUNTIME_CONFIG\<close>, \<^verbatim>\<open>RAY_FILE_MOUNTS_CONTENTS\<close>, the kinds \<^verbatim>\<open>worker\<close> and
  \<^verbatim>\<open>unmanaged\<close> and the status \<^verbatim>\<open>up_to_date\<close>.
\<close>

abbreviation TAG_RAY_NODE_KIND :: string where "TAG_RAY_NODE_KIND \<equiv> ''RAY_NODE_KIND''"
abbreviation TAG_RAY_NODE_STATUS :: string where "TAG_RAY_NODE_STATUS \<equiv> ''RAY_NODE_STATUS''"
abbreviation TAG_RAY_USER_NODE_TYPE :: string where
  "TAG_RAY_USER_NODE_TYPE \<equiv> ''RAY_USER_NODE_TYPE''"
abbreviation TAG_RAY_LAUNCH_CONFIG :: string where
  "TAG_RAY_LAUNCH_CONFIG \<equiv> ''RAY_LAUNCH_CONFIG''"
abbreviation TAG_RAY_RUNTIME_CONFIG :: string where
  "TAG_RAY_RUNTIME_CONFIG \<equiv> ''RAY_RUNTIME_CONFIG''"
abbreviation TAG_RAY_FILE_MOUNTS_CONTENTS :: string where
  "TAG_RAY_FILE_MOUNTS_CONTENTS \<equiv> ''RAY_FILE_MOUNTS_CONTENTS''"
abbreviation NODE_KIND_WORKER :: string where "NODE_KIND_WORKER \<equiv> ''worker''"
abbreviation NODE_KIND_UNMANAGED :: string where "NODE_KIND_UNMANAGED \<equiv> ''unmanaged''"
abbreviation STATUS_UP_TO_DATE :: string where "STATUS_UP_TO_DATE \<equiv> ''up_to_date''"

text \<open>
  An entry of \<^verbatim>\<open>available_node_types\<close>. Every key is optional in the dict, so every
  field is an option: \<open>None\<close> is the missing key.
\<close>

record node_type_config =
  nt_resources :: "resource_dict option"
  nt_node_config :: "string pydict_str option"
  nt_min_workers :: "int option"
  nt_max_workers :: "int option"
  nt_worker_setup_commands :: "string list option"
  nt_initialization_commands :: "string list option"
  nt_docker :: "string pydict_str option"

text \<open>
  The cluster config, \<^verbatim>\<open>self.config\<close>. The keys that \<^verbatim>\<open>reset\<close> or the schema make
  mandatory are plain fields; the keys read with \<^verbatim>\<open>.get\<close> or guarded by \<^verbatim>\<open>in\<close>
  are options. \<^verbatim>\<open>self.available_node_types\<close> is the same object as
  \<^verbatim>\<open>self.config["available_node_types"]\<close> (assigned in \<^verbatim>\<open>reset\<close>).
\<close>

record cluster_config =
  provider_type :: string
  max_workers :: int
  idle_timeout_minutes :: real
  worker_nodes :: "string pydict_str"
  auth :: "string pydict_str"
  available_node_types :: "node_type \<rightharpoonup> node_type_config"
  worker_setup_commands :: "string list"
  worker_start_ray_commands :: "string list"
  initialization_commands :: "string list"
  docker :: "string pydict_str option"
  restart_only :: "bool option"
  no_restart :: "bool option"

text \<open>
  The node provider: the non-terminated nodes in the order the provider lists them, their
  tags and internal IPs. \<open>outage\<close> is the exception that listing the nodes raises while the
  provider's API is unreachable (\<open>None\<close> when it is reachable).
\<close>

record node_provider =
  node_list :: "node_id list"
  node_tags :: "node_id \<Rightarrow> string pydict_str"
  internal_ip :: "node_id \<Rightarrow> string"
  outage :: "exn option"

text \<open>
  Load metrics. \<open>marked_active\<close> is the log of the IPs passed to \<^verbatim>\<open>mark_active\<close>.
\<close>

record load_metrics =
  local_ip :: string
  last_used_time_by_ip :: "(string \<times> real) list"
  last_heartbeat_time_by_ip :: "(string \<times> real) list"
  marked_active :: "string list"

text \<open>
  The handle of a \<^verbatim>\<open>NodeUpdaterThread\<close>: whether the thread is alive, its exit code, and
  the commands it was built with.
\<close>

record updater =
  is_alive :: bool
  exitcode :: int
  u_file_mounts_empty :: bool
  u_initialization_commands :: "string list"
  u_setup_commands :: "string list"
  u_ray_start_commands :: "string list"
  u_docker_config :: "string pydict_str option"
  u_node_resources :: resource_dict

text \<open>\<^verbatim>\<open>UpdateInstructions\<close>; the null sentinel has \<^verbatim>\<open>None\<close> in every field.\<close>

record UpdateInstructions =
  ui_node_id :: "node_id option"
  ui_init_commands :: "string list option"
  ui_start_ray_commands :: "string list option"
  ui_docker_config :: "string pydict_str option"

definition no_update :: UpdateInstructions where
  "no_update = \<lparr>ui_node_id = None, ui_init_commands = None,
     ui_start_ray_commands = None, ui_docker_config = None\<rparr>"

text \<open>The mutable state of a \<^verbatim>\<open>StandardAutoscaler\<close>.\<close>

record autoscaler =
  config :: cluster_config
  runtime_hash :: string
  file_mounts_contents_hash :: "string option"
  provider :: node_provider
  load_metrics :: load_metrics
  max_failures :: int
  max_launch_batch :: int
  updaters :: "(node_id \<times> updater) list"
  num_failed_updates :: "node_id \<Rightarrow> int"
  num_successful_updates :: "node_id \<Rightarrow> int"
  num_failures :: int
  last_update_time :: real
  update_interval_s :: real
  launch_queue :: "(cluster_config \<times> int \<times> node_type) list"
  pending_launches :: "node_type \<Rightarrow> int"
  resource_demand_vector :: "resource_dict list"

text \<open>
  The collaborators that the sources at hand import but do not contain are parameters:
  \<^verbatim>\<open>hash_launch_conf\<close> and \<^verbatim>\<open>with_head_node_ip\<close> (util), \<^verbatim>\<open>get_bin_pack_residual\<close> and
  the scheduler's \<^verbatim>\<open>get_nodes_to_launch\<close> (the resource demand scheduler, here a function of the
  state the call reads), and the constant \<^verbatim>\<open>AUTOSCALER_HEARTBEAT_TIMEOUT_S\<close>.
\<close>

record collaborators =
  hash_launch_conf :: "string pydict_str \<Rightarrow> string pydict_str \<Rightarrow> string"
  with_head_node_ip :: "string list \<Rightarrow> string \<Rightarrow> string list"
  get_bin_pack_residual ::
    "resource_dict list \<Rightarrow> resource_dict list \<Rightarrow> resource_dict list \<times> resource_dict list"
  get_nodes_to_launch :: "autoscaler \<Rightarrow> (node_type \<times> int) list"
  AUTOSCALER_HEARTBEAT_TIMEOUT_S :: real

subsection \<open>Provider queries\<close>

text \<open>\<^verbatim>\<open>provider.non_terminated_nodes(tag_filters)\<close>\<close>

definition non_terminated_nodes ::
  "node_provider \<Rightarrow> (string \<times> string) list \<Rightarrow> exn + node_id list" where
  "non_terminated_nodes p tag_filters =
     (case outage p of
        Some e \<Rightarrow> Inl e
      | None \<Rightarrow>
          Inr (filter (\<lambda>n. list_all (\<lambda>(k, v). node_tags p n k = Some v) tag_filters)
                 (node_list p)))"

definition workers :: "autoscaler \<Rightarrow> exn + node_id list" where
  "workers s = non_terminated_nodes (provider s) [(TAG_RAY_NODE_KIND, NODE_KIND_WORKER)]"

definition unmanaged_workers :: "autoscaler \<Rightarrow> exn + node_id list" where
  "unmanaged_workers s =
     non_terminated_nodes (provider s) [(TAG_RAY_NODE_KIND, NODE_KIND_UNMANAGED)]"

definition all_workers :: "autoscaler \<Rightarrow> exn + node_id list" where
  "all_workers s =
     (case workers s of
        Inl e \<Rightarrow> Inl e
      | Inr ws \<Rightarrow> (case unmanaged_workers s of Inl e \<Rightarrow> Inl e | Inr us \<Rightarrow> Inr (ws @ us)))"

text \<open>\<^verbatim>\<open>provider.terminate_nodes(batch)\<close>: the nodes leave the non-terminated list.\<close>

definition terminate_nodes :: "node_id list \<Rightarrow> node_provider \<Rightarrow> node_provider" where
  "terminate_nodes batch p = p\<lparr>node_list := filter (\<lambda>n. n \<notin> set batch) (node_list p)\<rparr>"

subsection \<open>Node-tag predicates\<close>

text \<open>
  \<^verbatim>\<open>launch_config_ok\<close>. \<^verbatim>\<open>if node_type:\<close> is false for a missing tag and for the empty
  string; an unknown type, or a type without \<^verbatim>\<open>node_config\<close>, raises \<^verbatim>\<open>KeyError\<close>.
\<close>

definition launch_config_ok :: "collaborators \<Rightarrow> autoscaler \<Rightarrow> node_id \<Rightarrow> exn + bool" where
  "launch_config_ok c s node_id =
     (let tags = node_tags (provider s) node_id;
          tag_launch_conf = tags TAG_RAY_LAUNCH_CONFIG;
          node_type = tags TAG_RAY_USER_NODE_TYPE;
          launch_config =
            (case node_type of
               None \<Rightarrow> Inr (worker_nodes (config s))
             | Some t \<Rightarrow>
                 if t = [] then Inr (worker_nodes (config s))
                 else (case available_node_types (config s) t of
                         None \<Rightarrow> Inl (KeyError t)
                       | Some nt \<Rightarrow>
                           (case nt_node_config nt of
                              None \<Rightarrow> Inl (KeyError ''node_config'')
                            | Some nc \<Rightarrow> Inr (worker_nodes (config s) ++ nc))))
      in case launch_config of
           Inl e \<Rightarrow> Inl e
         | Inr lc \<Rightarrow>
             (let calculated_launch_hash = hash_launch_conf c lc (auth (config s))
              in if Some calculated_launch_hash \<noteq> tag_launch_conf then Inr False
                 else Inr True))"

text \<open>\<^verbatim>\<open>files_up_to_date\<close>\<close>

definition files_up_to_date :: "autoscaler \<Rightarrow> node_id \<Rightarrow> bool" where
  "files_up_to_date s node_id =
     (let tags = node_tags (provider s) node_id;
          applied_config_hash = tags TAG_RAY_RUNTIME_CONFIG;
          applied_file_mounts_contents_hash = tags TAG_RAY_FILE_MOUNTS_CONTENTS
      in if applied_config_hash \<noteq> Some (runtime_hash s)
            \<or> (file_mounts_contents_hash s \<noteq> None
               \<and> file_mounts_contents_hash s \<noteq> applied_file_mounts_contents_hash)
         then False else True)"

text \<open>\<^verbatim>\<open>can_update\<close>\<close>

definition can_update :: "collaborators \<Rightarrow> autoscaler \<Rightarrow> node_id \<Rightarrow> exn + bool" where
  "can_update c s node_id =
     (if map_of (updaters s) node_id \<noteq> None then Inr False
      else (case launch_config_ok c s node_id of
              Inl e \<Rightarrow> Inl e
            | Inr ok \<Rightarrow>
                if \<not> ok then Inr False
                else if num_failed_updates s node_id > 0 then Inr False
                else Inr True))"

text \<open>
  \<^verbatim>\<open>_get_node_type_specific_fields(node_id, fields_key)\<close>: \<open>flds\<close> is
  \<^verbatim>\<open>self.config[fields_key]\<close> and \<open>sel\<close> reads \<^verbatim>\<open>fields_key\<close> in the node type's entry.
\<close>

definition get_node_type_specific_fields ::
  "autoscaler \<Rightarrow> node_id \<Rightarrow> 'a \<Rightarrow> (node_type_config \<Rightarrow> 'a option) \<Rightarrow> exn + 'a" where
  "get_node_type_specific_fields s node_id flds sel =
     (case node_tags (provider s) node_id TAG_RAY_USER_NODE_TYPE of
        None \<Rightarrow> Inr flds
      | Some t \<Rightarrow>
          (case available_node_types (config s) t of
             None \<Rightarrow> Inl (ValueError (''Unknown node type tag: '' @ t @ ''.''))
           | Some node_specific_config \<Rightarrow>
               (case sel node_specific_config of
                  Some f \<Rightarrow> Inr f
                | None \<Rightarrow> Inr flds)))"

text \<open>\<^verbatim>\<open>_get_node_specific_docker_config\<close>; the empty dict is the empty map.\<close>

definition get_node_specific_docker_config ::
  "autoscaler \<Rightarrow> node_id \<Rightarrow> exn + string pydict_str" where
  "get_node_specific_docker_config s node_id =
     (case docker (config s) of
        None \<Rightarrow> Inr Map.empty
      | Some d \<Rightarrow>
          (case get_node_type_specific_fields s node_id d nt_docker of
             Inl e \<Rightarrow> Inl e
           | Inr node_specific_docker \<Rightarrow> Inr (d ++ node_specific_docker)))"

text \<open>\<^verbatim>\<open>_node_resources\<close>; \<^verbatim>\<open>if self.available_node_types:\<close> is false for the empty dict.\<close>

definition node_resources :: "autoscaler \<Rightarrow> node_id \<Rightarrow> resource_dict" where
  "node_resources s node_id =
     (if available_node_types (config s) = Map.empty then Map.empty
      else (case node_tags (provider s) node_id TAG_RAY_USER_NODE_TYPE of
              None \<Rightarrow> Map.empty
            | Some t \<Rightarrow>
                (case available_node_types (config s) t of
                   None \<Rightarrow> Map.empty
                 | Some nt \<Rightarrow> (case nt_resources nt of None \<Rightarrow> Map.empty | Some r \<Rightarrow> r))))"

text \<open>\<^verbatim>\<open>should_update\<close>. \<^verbatim>\<open>config.get("restart_only", False)\<close> is read for its truth.\<close>

definition should_update ::
  "collaborators \<Rightarrow> autoscaler \<Rightarrow> node_id \<Rightarrow> exn + UpdateInstructions" where
  "should_update c s node_id =
     (case can_update c s node_id of
        Inl e \<Rightarrow> Inl e
      | Inr cu \<Rightarrow>
          if \<not> cu then Inr no_update
          else
            (let status = node_tags (provider s) node_id TAG_RAY_NODE_STATUS
             in if status = Some STATUS_UP_TO_DATE \<and> files_up_to_date s node_id
                then Inr no_update
                else
                  (let successful_updated = (num_successful_updates s node_id > 0);
                       cmds =
                         (if successful_updated \<and> restart_only (config s) = Some True
                          then Inr ([], worker_start_ray_commands (config s))
                          else if successful_updated \<and> no_restart (config s) = Some True
                          then (case get_node_type_specific_fields s node_id
                                       (worker_setup_commands (config s))
                                       nt_worker_setup_commands of
                                  Inl e \<Rightarrow> Inl e
                                | Inr init_commands \<Rightarrow> Inr (init_commands, []))
                          else (case get_node_type_specific_fields s node_id
                                       (worker_setup_commands (config s))
                                       nt_worker_setup_commands of
                                  Inl e \<Rightarrow> Inl e
                                | Inr init_commands \<Rightarrow>
                                    Inr (init_commands, worker_start_ray_commands (config s))))
                   in case cmds of
                        Inl e \<Rightarrow> Inl e
                      | Inr (init_commands, ray_commands) \<Rightarrow>
                          (case get_node_specific_docker_config s node_id of
                             Inl e \<Rightarrow> Inl e
                           | Inr docker_config \<Rightarrow>
                               Inr \<lparr>ui_node_id = Some node_id,
                                    ui_init_commands = Some init_commands,
                                    ui_start_ray_commands = Some ray_commands,
                                    ui_docker_config = Some docker_config\<rparr>))))"

subsection \<open>Step 2 of the tick: idle and outdated workers\<close>

text \<open>
  \<^verbatim>\<open>_sort_based_on_last_used\<close>: \<^verbatim>\<open>min\<close> of an empty dict's values raises
  \<^verbatim>\<open>ValueError\<close>; \<^verbatim>\<open>sorted(..., reverse=True)\<close> is a stable sort by descending key.
  After the loop every node's IP is a key of \<open>updated_last_used\<close>, so the key function's
  \<open>None\<close> branch is never taken.
\<close>

definition sort_based_on_last_used ::
  "node_provider \<Rightarrow> node_id list \<Rightarrow> (string \<times> real) list \<Rightarrow> exn + node_id list" where
  "sort_based_on_last_used p nodes last_used =
     (case last_used of
        [] \<Rightarrow> Inl (ValueError ''min() arg is an empty sequence'')
      | (k0, v0) # rest \<Rightarrow>
          (let least_recently_used = fold min (map snd rest) v0;
               updated_last_used =
                 fold (\<lambda>node_id m.
                         let node_ip = internal_ip p node_id
                         in if map_of m node_ip = None
                            then AList.update node_ip (least_recently_used - 1) m else m)
                   nodes last_used;
               last_time_used =
                 (\<lambda>node_id. case map_of updated_last_used (internal_ip p node_id) of
                               Some t \<Rightarrow> t | None \<Rightarrow> least_recently_used - 1)
           in Inr (sort_key (\<lambda>node_id. - last_time_used node_id) nodes)))"

text \<open>
  \<^verbatim>\<open>_get_nodes_allowed_to_terminate\<close>. The first loop collects the typed nodes and the
  declared resources of their types (\<^verbatim>\<open>KeyError\<close> for an unknown type or a type without
  \<^verbatim>\<open>resources\<close>); the second loop is over \<^verbatim>\<open>enumerate(resource_demand_vector_node_ids)\<close>,
  and \<^verbatim>\<open>used_resource_requests[i]\<close> raises \<^verbatim>\<open>IndexError\<close> out of range.
\<close>

fun collect_typed ::
  "autoscaler \<Rightarrow> node_id list \<Rightarrow> exn + (node_id \<times> resource_dict) list" where
  "collect_typed s [] = Inr []"
| "collect_typed s (node_id # rest) =
     (case node_tags (provider s) node_id TAG_RAY_USER_NODE_TYPE of
        None \<Rightarrow> collect_typed s rest
      | Some t \<Rightarrow>
          (case available_node_types (config s) t of
             None \<Rightarrow> Inl (KeyError t)
           | Some nt \<Rightarrow>
               (case nt_resources nt of
                  None \<Rightarrow> Inl (KeyError ''resources'')
                | Some r \<Rightarrow>
                    (case collect_typed s rest of
                       Inl e \<Rightarrow> Inl e
                     | Inr typed \<Rightarrow> Inr ((node_id, r) # typed)))))"

fun allowed_loop ::
  "resource_dict list \<Rightarrow> resource_dict list \<Rightarrow> resource_dict list \<Rightarrow>
   (nat \<times> node_id) list \<Rightarrow> (node_id \<rightharpoonup> bool) \<Rightarrow> exn + (node_id \<rightharpoonup> bool)" where
  "allowed_loop unfulfilled used max_node_resources [] m = Inr m"
| "allowed_loop unfulfilled used max_node_resources ((i, node_id) # rest) m =
     (if unfulfilled \<noteq> []
      then allowed_loop unfulfilled used max_node_resources rest (m(node_id \<mapsto> False))
      else if \<not> i < length used then Inl IndexError
      else if used ! i \<noteq> max_node_resources ! i
      then allowed_loop unfulfilled used max_node_resources rest (m(node_id \<mapsto> False))
      else allowed_loop unfulfilled used max_node_resources rest (m(node_id \<mapsto> True)))"

definition get_nodes_allowed_to_terminate ::
  "collaborators \<Rightarrow> autoscaler \<Rightarrow> node_id list \<Rightarrow> exn + (node_id \<rightharpoonup> bool)" where
  "get_nodes_allowed_to_terminate c s sorted_node_ids =
     (case collect_typed s sorted_node_ids of
        Inl e \<Rightarrow> Inl e
      | Inr typed \<Rightarrow>
          (let max_node_resources = map snd typed;
               resource_demand_vector_node_ids = map fst typed;
               (unfulfilled_resource_requests, used_resource_requests) =
                 get_bin_pack_residual c max_node_resources (resource_demand_vector s)
           in allowed_loop unfulfilled_resource_requests used_resource_requests
                max_node_resources
                (enumerate 0 resource_demand_vector_node_ids) Map.empty))"

text \<open>
  \<^verbatim>\<open>_keep_min_worker_of_node_type\<close>: returns the answer and the updated counters
  (\<^verbatim>\<open>node_type_counts\<close> is a \<^verbatim>\<open>defaultdict(int)\<close> mutated in place).
\<close>

definition keep_min_worker_of_node_type ::
  "autoscaler \<Rightarrow> node_id \<Rightarrow> (node_type \<Rightarrow> int) \<Rightarrow> exn + (bool \<times> (node_type \<Rightarrow> int))" where
  "keep_min_worker_of_node_type s node_id node_type_counts =
     (case node_tags (provider s) node_id TAG_RAY_USER_NODE_TYPE of
        None \<Rightarrow> Inr (False, node_type_counts)
      | Some t \<Rightarrow>
          (let counts' = node_type_counts(t := node_type_counts t + 1)
           in case available_node_types (config s) t of
                None \<Rightarrow> Inl (KeyError t)
              | Some nt \<Rightarrow>
                  (let min_workers = (case nt_min_workers nt of Some v \<Rightarrow> v | None \<Rightarrow> 0);
                       max_workers = (case nt_max_workers nt of Some v \<Rightarrow> v | None \<Rightarrow> 0)
                   in if counts' t \<le> min min_workers max_workers
                      then Inr (True, counts') else Inr (False, counts'))))"

text \<open>
  The body of the loop over \<open>sorted_node_ids\<close>. \<open>Skip\<close> is the \<^verbatim>\<open>continue\<close>; the two
  \<open>Terminate\<close> outcomes append the node to \<^verbatim>\<open>nodes_to_terminate\<close>; \<open>Leave\<close> is falling
  through both tests. \<^verbatim>\<open>or\<close> and \<^verbatim>\<open>and\<close> evaluate their right operand only when needed.
\<close>

datatype decision = Skip | Terminate_idle | Terminate_outdated | Leave

definition walk_step ::
  "collaborators \<Rightarrow> autoscaler \<Rightarrow> (string \<times> real) list \<Rightarrow> real \<Rightarrow> (node_id \<rightharpoonup> bool) \<Rightarrow>
   node_id \<Rightarrow> (node_type \<Rightarrow> int) \<Rightarrow> exn + (decision \<times> (node_type \<Rightarrow> int))" where
  "walk_step c s last_used horizon nodes_allowed_to_terminate node_id node_type_counts =
     (case keep_min_worker_of_node_type s node_id node_type_counts of
        Inl e \<Rightarrow> Inl e
      | Inr (keep, counts') \<Rightarrow>
          (let protected =
                 (keep \<or> \<not> (case nodes_allowed_to_terminate node_id of
                                Some b \<Rightarrow> b | None \<Rightarrow> True))
           in case (if protected then launch_config_ok c s node_id else Inr False) of
                Inl e \<Rightarrow> Inl e
              | Inr True \<Rightarrow> Inr (Skip, counts')
              | Inr False \<Rightarrow>
                  (let node_ip = internal_ip (provider s) node_id;
                       idle = (case map_of last_used node_ip of
                                 Some t \<Rightarrow> t < horizon | None \<Rightarrow> False)
                   in if idle then Inr (Terminate_idle, counts')
                      else (case launch_config_ok c s node_id of
                              Inl e \<Rightarrow> Inl e
                            | Inr ok \<Rightarrow>
                                if \<not> ok then Inr (Terminate_outdated, counts')
                                else Inr (Leave, counts')))))"

fun walk ::
  "collaborators \<Rightarrow> autoscaler \<Rightarrow> (string \<times> real) list \<Rightarrow> real \<Rightarrow> (node_id \<rightharpoonup> bool) \<Rightarrow>
   node_id list \<Rightarrow> (node_type \<Rightarrow> int) \<Rightarrow> node_id list \<Rightarrow> exn + node_id list" where
  "walk c s last_used horizon allowed [] node_type_counts nodes_to_terminate =
     Inr nodes_to_terminate"
| "walk c s last_used horizon allowed (node_id # rest) node_type_counts nodes_to_terminate =
     (case walk_step c s last_used horizon allowed node_id node_type_counts of
        Inl e \<Rightarrow> Inl e
      | Inr (d, counts') \<Rightarrow>
          walk c s last_used horizon allowed rest counts'
            (if d = Terminate_idle \<or> d = Terminate_outdated
             then nodes_to_terminate @ [node_id] else nodes_to_terminate))"

text \<open>
  Lines 163 to 196 of \<^verbatim>\<open>_update\<close>: the nodes that step 2 terminates, for the worker list
  \<open>nodes\<close> read at time \<open>now\<close>.
\<close>

definition idle_or_outdated ::
  "collaborators \<Rightarrow> real \<Rightarrow> node_id list \<Rightarrow> autoscaler \<Rightarrow> exn + node_id list" where
  "idle_or_outdated c now nodes s =
     (let last_used = last_used_time_by_ip (load_metrics s);
          horizon = now - (60 * idle_timeout_minutes (config s))
      in case sort_based_on_last_used (provider s) nodes last_used of
           Inl e \<Rightarrow> Inl e
         | Inr sorted_node_ids \<Rightarrow>
             (case (if resource_demand_vector s \<noteq> []
                    then get_nodes_allowed_to_terminate c s sorted_node_ids
                    else Inr Map.empty) of
                Inl e \<Rightarrow> Inl e
              | Inr nodes_allowed_to_terminate \<Rightarrow>
                  walk c s last_used horizon nodes_allowed_to_terminate sorted_node_ids
                    (\<lambda>_. 0) []))"

subsection \<open>Step 3 of the tick: too many workers\<close>

text \<open>
  The \<^verbatim>\<open>while\<close> loop of lines 205 to 210: \<^verbatim>\<open>nodes.pop()\<close> removes and returns the last
  element of \<open>nodes\<close>.
\<close>

function excess_loop ::
  "node_id list \<Rightarrow> node_id list \<Rightarrow> int \<Rightarrow> node_id list \<times> node_id list" where
  "excess_loop nodes nodes_to_terminate maxw =
     (if int (length nodes) - int (length nodes_to_terminate) > maxw \<and> nodes \<noteq> []
      then excess_loop (butlast nodes) (nodes_to_terminate @ [last nodes]) maxw
      else (nodes, nodes_to_terminate))"
  by pat_completeness auto
termination
  by (relation "measure (\<lambda>(nodes, t, m). length nodes)") auto

subsection \<open>Step 4 of the tick: launches\<close>

text \<open>
  \<^verbatim>\<open>launch_new_node\<close>. The \<^verbatim>\<open>while count > 0\<close> loop subtracts \<^verbatim>\<open>max_launch_batch\<close>
  each round and does not end when that is not positive, so the loop is a partial function:
  \<open>None\<close> is not returning.
\<close>

partial_function (option) launch_loop ::
  "cluster_config \<Rightarrow> int \<Rightarrow> node_type \<Rightarrow> int \<Rightarrow> (cluster_config \<times> int \<times> node_type) list \<Rightarrow>
   (cluster_config \<times> int \<times> node_type) list option" where
  "launch_loop cfg batch nt count q =
     (if count > 0
      then launch_loop cfg batch nt (count - batch) (q @ [(cfg, min count batch, nt)])
      else Some q)"

text \<open>
  Modelled from the spec: \<^verbatim>\<open>ConcurrentCounter.inc\<close> (util) is not in the sources at hand;
  the spec has it increment \<^verbatim>\<open>pending_launches[type]\<close> by \<^verbatim>\<open>count\<close>.
\<close>

definition launch_new_node :: "int \<Rightarrow> node_type \<Rightarrow> autoscaler \<Rightarrow> autoscaler option" where
  "launch_new_node count nt s =
     (let s1 = s\<lparr>pending_launches := (pending_launches s)(nt := pending_launches s nt + count)\<rparr>
      in case launch_loop (config s1) (max_launch_batch s1) nt count (launch_queue s1) of
           None \<Rightarrow> None
         | Some q \<Rightarrow> Some (s1\<lparr>launch_queue := q\<rparr>))"

fun launch_all :: "(node_type \<times> int) list \<Rightarrow> autoscaler \<Rightarrow> autoscaler option" where
  "launch_all [] s = Some s"
| "launch_all ((nt, count) # rest) s =
     (case launch_new_node count nt s of None \<Rightarrow> None | Some s' \<Rightarrow> launch_all rest s')"

text \<open>
  Lines 218 to 227. The scheduler is called with all non-terminated nodes, the pending
  launches, the requested resources and the load metrics it reads.
\<close>

definition launch_phase ::
  "collaborators \<Rightarrow> autoscaler \<Rightarrow> ((exn + unit) \<times> autoscaler) option" where
  "launch_phase c s =
     (case non_terminated_nodes (provider s) [] of
        Inl e \<Rightarrow> Some (Inl e, s)
      | Inr _ \<Rightarrow>
          (case launch_all (get_nodes_to_launch c s) s of
             None \<Rightarrow> None
           | Some s' \<Rightarrow> Some (Inr (), s')))"

subsection \<open>Step 5 of the tick: completed updaters\<close>

text \<open>
  Modelled from the spec: \<^verbatim>\<open>LoadMetrics.mark_active\<close> and \<^verbatim>\<open>LoadMetrics.prune_active_ips\<close>
  are not in the sources at hand. The spec has \<^verbatim>\<open>mark_active(ip)\<close> mark the IP active in
  load metrics, recorded here in the log \<open>marked_active\<close>, and has \<^verbatim>\<open>prune_active_ips\<close>
  prune the per-IP entries to the given IPs.
\<close>

definition mark_active :: "string \<Rightarrow> load_metrics \<Rightarrow> load_metrics" where
  "mark_active ip lm = lm\<lparr>marked_active := marked_active lm @ [ip]\<rparr>"

definition prune_active_ips :: "string list \<Rightarrow> load_metrics \<Rightarrow> load_metrics" where
  "prune_active_ips ips lm =
     lm\<lparr>last_used_time_by_ip := filter (\<lambda>(ip, _). ip \<in> set ips) (last_used_time_by_ip lm),
        last_heartbeat_time_by_ip :=
          filter (\<lambda>(ip, _). ip \<in> set ips) (last_heartbeat_time_by_ip lm)\<rparr>"

text \<open>The body of the loop of lines 237 to 242, for one completed node.\<close>

definition reap_one :: "node_id \<Rightarrow> autoscaler \<Rightarrow> exn + autoscaler" where
  "reap_one node_id s =
     (case map_of (updaters s) node_id of
        None \<Rightarrow> Inl (KeyError node_id)
      | Some u \<Rightarrow>
          (let s1 = (if exitcode u = 0
                     then s\<lparr>num_successful_updates :=
                              (num_successful_updates s)
                                (node_id := num_successful_updates s node_id + 1)\<rparr>
                     else s\<lparr>num_failed_updates :=
                              (num_failed_updates s)
                                (node_id := num_failed_updates s node_id + 1)\<rparr>)
           in Inr (s1\<lparr>updaters := AList.delete node_id (updaters s1)\<rparr>)))"

fun reap_loop :: "node_id list \<Rightarrow> autoscaler \<Rightarrow> (exn + unit) \<times> autoscaler" where
  "reap_loop [] s = (Inr (), s)"
| "reap_loop (node_id # rest) s =
     (case reap_one node_id s of Inl e \<Rightarrow> (Inl e, s) | Inr s' \<Rightarrow> reap_loop rest s')"

text \<open>
  Lines 231 to 247. After the \<^verbatim>\<open>for\<close> loop the variable \<^verbatim>\<open>node_id\<close> holds the last
  element of \<^verbatim>\<open>completed\<close>, and line 245 is outside the loop.
\<close>

definition reap :: "autoscaler \<Rightarrow> (exn + unit) \<times> autoscaler" where
  "reap s =
     (let completed = map fst (filter (\<lambda>(node_id, u). \<not> is_alive u) (updaters s))
      in if completed = [] then (Inr (), s)
         else (case reap_loop completed s of
                 (Inl e, s') \<Rightarrow> (Inl e, s')
               | (Inr _, s') \<Rightarrow>
                   (Inr (),
                    s'\<lparr>load_metrics :=
                         mark_active (internal_ip (provider s') (last completed))
                           (load_metrics s')\<rparr>)))"

subsection \<open>Steps 6 and 7 of the tick: updates and recovery\<close>

text \<open>
  Modelled from the spec: \<^verbatim>\<open>NodeUpdaterThread\<close> is not in the sources at hand; the spec's
  handle exposes \<^verbatim>\<open>is_alive()\<close> and \<^verbatim>\<open>exitcode\<close> (0 = success). A handle that was just
  started is alive and has no successful exit code yet.
\<close>

definition started_updater ::
  "bool \<Rightarrow> string list \<Rightarrow> string list \<Rightarrow> string list \<Rightarrow> string pydict_str option \<Rightarrow>
   resource_dict \<Rightarrow> updater" where
  "started_updater no_mounts init setup_cmds start dock res =
     \<lparr>is_alive = True, exitcode = - 1, u_file_mounts_empty = no_mounts,
      u_initialization_commands = init, u_setup_commands = setup_cmds,
      u_ray_start_commands = start, u_docker_config = dock, u_node_resources = res\<rparr>"

text \<open>\<^verbatim>\<open>spawn_updater\<close>\<close>

definition spawn_updater ::
  "collaborators \<Rightarrow> node_id \<Rightarrow> string list \<Rightarrow> string list \<Rightarrow> resource_dict \<Rightarrow>
   string pydict_str \<Rightarrow> autoscaler \<Rightarrow> exn + autoscaler" where
  "spawn_updater c node_id init_commands ray_start_commands res docker_config s =
     (case get_node_type_specific_fields s node_id (initialization_commands (config s))
             nt_initialization_commands of
        Inl e \<Rightarrow> Inl e
      | Inr ic \<Rightarrow>
          (let head_node_ip = local_ip (load_metrics s);
               u = started_updater False
                     (with_head_node_ip c ic head_node_ip)
                     (with_head_node_ip c init_commands head_node_ip)
                     (with_head_node_ip c ray_start_commands head_node_ip)
                     (Some docker_config) res
           in Inr (s\<lparr>updaters := AList.update node_id u (updaters s)\<rparr>)))"

text \<open>
  Lines 253 to 267. The generator evaluates \<^verbatim>\<open>should_update\<close> for every node before any
  thread is started; an exception there ends the tick. Each thread runs
  \<^verbatim>\<open>spawn_updater\<close>; an exception inside a thread ends that thread only. The threads are
  run here one after the other, in the order of \<open>T\<close>.
\<close>

fun should_update_all ::
  "collaborators \<Rightarrow> autoscaler \<Rightarrow> node_id list \<Rightarrow> exn + UpdateInstructions list" where
  "should_update_all c s [] = Inr []"
| "should_update_all c s (node_id # rest) =
     (case should_update c s node_id of
        Inl e \<Rightarrow> Inl e
      | Inr instr \<Rightarrow>
          (case should_update_all c s rest of
             Inl e \<Rightarrow> Inl e
           | Inr instrs \<Rightarrow> Inr (instr # instrs)))"

definition run_thread ::
  "collaborators \<Rightarrow> autoscaler \<Rightarrow> UpdateInstructions \<Rightarrow> autoscaler \<Rightarrow> autoscaler" where
  "run_thread c s0 instr s =
     (case ui_node_id instr of
        None \<Rightarrow> s
      | Some node_id \<Rightarrow>
          (case spawn_updater c node_id
                  (case ui_init_commands instr of Some x \<Rightarrow> x | None \<Rightarrow> [])
                  (case ui_start_ray_commands instr of Some x \<Rightarrow> x | None \<Rightarrow> [])
                  (node_resources s0 node_id)
                  (case ui_docker_config instr of Some x \<Rightarrow> x | None \<Rightarrow> Map.empty) s of
             Inl e \<Rightarrow> s
           | Inr s' \<Rightarrow> s'))"

definition dispatch ::
  "collaborators \<Rightarrow> node_id list \<Rightarrow> autoscaler \<Rightarrow> (exn + unit) \<times> autoscaler" where
  "dispatch c nodes s =
     (case should_update_all c s nodes of
        Inl e \<Rightarrow> (Inl e, s)
      | Inr instrs \<Rightarrow> (Inr (), fold (run_thread c s) instrs s))"

text \<open>\<^verbatim>\<open>recover_if_needed\<close>\<close>

definition recover_if_needed ::
  "collaborators \<Rightarrow> node_id \<Rightarrow> real \<Rightarrow> autoscaler \<Rightarrow> (exn + unit) \<times> autoscaler" where
  "recover_if_needed c node_id now s =
     (case can_update c s node_id of
        Inl e \<Rightarrow> (Inl e, s)
      | Inr cu \<Rightarrow>
          if \<not> cu then (Inr (), s)
          else
            (let key = internal_ip (provider s) node_id;
                 lm = load_metrics s;
                 hb = (if map_of (last_heartbeat_time_by_ip lm) key = None
                       then AList.update key now (last_heartbeat_time_by_ip lm)
                       else last_heartbeat_time_by_ip lm);
                 s1 = s\<lparr>load_metrics := lm\<lparr>last_heartbeat_time_by_ip := hb\<rparr>\<rparr>
             in case map_of hb key of
                  None \<Rightarrow> (Inl (KeyError key), s1)
                | Some last_heartbeat_time \<Rightarrow>
                    (let delta = now - last_heartbeat_time
                     in if delta < AUTOSCALER_HEARTBEAT_TIMEOUT_S c then (Inr (), s1)
                        else
                          (let u = started_updater True [] []
                                     (with_head_node_ip c
                                        (worker_start_ray_commands (config s1))
                                        (local_ip (load_metrics s1)))
                                     (docker (config s1)) (node_resources s1 node_id)
                           in (Inr (),
                               s1\<lparr>updaters := AList.update node_id u (updaters s1)\<rparr>)))))"

fun recover_all ::
  "collaborators \<Rightarrow> node_id list \<Rightarrow> real \<Rightarrow> autoscaler \<Rightarrow> (exn + unit) \<times> autoscaler" where
  "recover_all c [] now s = (Inr (), s)"
| "recover_all c (node_id # rest) now s =
     (case recover_if_needed c node_id now s of
        (Inl e, s') \<Rightarrow> (Inl e, s')
      | (Inr _, s') \<Rightarrow> recover_all c rest now s')"

subsection \<open>The tick\<close>

text \<open>
  Lines 198 to 216: the two calls of \<^verbatim>\<open>terminate_nodes\<close>, each followed by re-reading
  the workers, around the loop of step 3, which pops from the list \<open>nodes\<close> that
  \<^verbatim>\<open>self.workers()\<close> returned.
\<close>

definition terminate_and_reread ::
  "node_id list \<Rightarrow> node_id list \<Rightarrow> autoscaler \<Rightarrow> (exn + node_id list) \<times> autoscaler" where
  "terminate_and_reread nodes_to_terminate nodes s =
     (if nodes_to_terminate \<noteq> []
      then (let s' = s\<lparr>provider := terminate_nodes nodes_to_terminate (provider s)\<rparr>
            in (workers s', s'))
      else (Inr nodes, s))"

definition terminate_excess ::
  "node_id list \<Rightarrow> autoscaler \<Rightarrow> (exn + node_id list) \<times> autoscaler" where
  "terminate_excess nodes s =
     (let (nodes', nodes_to_terminate) = excess_loop nodes [] (max_workers (config s))
      in terminate_and_reread nodes_to_terminate nodes' s)"

text \<open>
  Lines 229 to 271: steps 5 to 7. The source re-reads the workers after the reap only when
  some updater had completed; the reap does not touch the provider, so the second read
  returns the list of the first.
\<close>

definition update_nodes ::
  "collaborators \<Rightarrow> real \<Rightarrow> autoscaler \<Rightarrow> (exn + unit) \<times> autoscaler" where
  "update_nodes c now s =
     (case workers s of
        Inl e \<Rightarrow> (Inl e, s)
      | Inr nodes \<Rightarrow>
          (case reap s of
             (Inl e, s1) \<Rightarrow> (Inl e, s1)
           | (Inr _, s1) \<Rightarrow>
               (case workers s1 of
                  Inl e \<Rightarrow> (Inl e, s1)
                | Inr nodes1 \<Rightarrow>
                    (case dispatch c nodes1 s1 of
                       (Inl e, s2) \<Rightarrow> (Inl e, s2)
                     | (Inr _, s2) \<Rightarrow> recover_all c nodes1 now s2))))"

text \<open>Lines 155 to 216: steps 1 to 3.\<close>

definition terminate_phase ::
  "collaborators \<Rightarrow> real \<Rightarrow> autoscaler \<Rightarrow> (exn + unit) \<times> autoscaler" where
  "terminate_phase c now s =
     (case workers s of
        Inl e \<Rightarrow> (Inl e, s)
      | Inr nodes \<Rightarrow>
          (case all_workers s of
             Inl e \<Rightarrow> (Inl e, s)
           | Inr aw \<Rightarrow>
               (let s1 = s\<lparr>load_metrics :=
                            prune_active_ips (map (internal_ip (provider s)) aw)
                              (load_metrics s)\<rparr>
                in case idle_or_outdated c now nodes s1 of
                     Inl e \<Rightarrow> (Inl e, s1)
                   | Inr nodes_to_terminate \<Rightarrow>
                       (case terminate_and_reread nodes_to_terminate nodes s1 of
                          (Inl e, s2) \<Rightarrow> (Inl e, s2)
                        | (Inr nodes2, s2) \<Rightarrow>
                            (case terminate_excess nodes2 s2 of
                               (Inl e, s3) \<Rightarrow> (Inl e, s3)
                             | (Inr _, s3) \<Rightarrow> (Inr (), s3))))))"

text \<open>
  \<^verbatim>\<open>_update\<close>, with \<open>now\<close> the value of \<^verbatim>\<open>time.time()\<close>. The result is \<open>None\<close> when the
  call does not return, and otherwise the exception raised (or \<open>Inr ()\<close>) with the state
  the call leaves behind.
\<close>

definition update_tick ::
  "collaborators \<Rightarrow> real \<Rightarrow> autoscaler \<Rightarrow> ((exn + unit) \<times> autoscaler) option" where
  "update_tick c now s =
     (if now - last_update_time s < update_interval_s s then Some (Inr (), s)
      else
        (let s0 = s\<lparr>last_update_time := now\<rparr>
         in case terminate_phase c now s0 of
              (Inl e, s1) \<Rightarrow> Some (Inl e, s1)
            | (Inr _, s1) \<Rightarrow>
                (case launch_phase c s1 of
                   None \<Rightarrow> None
                 | Some (Inl e, s2) \<Rightarrow> Some (Inl e, s2)
                 | Some (Inr _, s2) \<Rightarrow> Some (update_nodes c now s2))))"

text \<open>
  \<^verbatim>\<open>reset(errors_fatal=False)\<close>. \<open>loaded\<close> is the config read from the file with the two
  hashes \<^verbatim>\<open>hash_runtime_conf\<close> computes for it, or \<open>None\<close> when reading, parsing or hashing
  raised: the exception is logged and the state stays as it was.
\<close>

definition reset ::
  "(cluster_config \<times> string \<times> string option) option \<Rightarrow> autoscaler \<Rightarrow> autoscaler" where
  "reset loaded s =
     (case loaded of
        None \<Rightarrow> s
      | Some (new_config, new_runtime_hash, new_file_mounts_contents_hash) \<Rightarrow>
          s\<lparr>config := new_config, runtime_hash := new_runtime_hash,
            file_mounts_contents_hash := new_file_mounts_contents_hash\<rparr>)"

text \<open>The \<^verbatim>\<open>except\<close> block of \<^verbatim>\<open>update\<close>: \<open>Inl e\<close> is \<^verbatim>\<open>raise e\<close>.\<close>

definition handle_tick_exception :: "exn \<Rightarrow> autoscaler \<Rightarrow> (exn + unit) \<times> autoscaler" where
  "handle_tick_exception e s =
     (let is_k8s_connection_error =
            (provider_type (config s) = ''kubernetes'' \<and> is_MaxRetryError e);
          s' = (if \<not> is_k8s_connection_error
                then s\<lparr>num_failures := num_failures s + 1\<rparr> else s)
      in if num_failures s' > max_failures s' then (Inl e, s') else (Inr (), s'))"

text \<open>\<^verbatim>\<open>update\<close>\<close>

definition update ::
  "collaborators \<Rightarrow> (cluster_config \<times> string \<times> string option) option \<Rightarrow> real \<Rightarrow>
   autoscaler \<Rightarrow> ((exn + unit) \<times> autoscaler) option" where
  "update c loaded now s =
     (case update_tick c now (reset loaded s) of
        None \<Rightarrow> None
      | Some (Inl e, s') \<Rightarrow> Some (handle_tick_exception e s')
      | Some (Inr _, s') \<Rightarrow> Some (Inr (), s'))"

subsection \<open>Well-formedness and bookkeeping predicates\<close>

text \<open>
  A node's type tag, when present, names a declared node type that has a
  \<^verbatim>\<open>node_config\<close>: the condition under which neither \<^verbatim>\<open>launch_config_ok\<close> nor
  \<^verbatim>\<open>_keep_min_worker_of_node_type\<close> raises.
\<close>

definition node_type_declared :: "autoscaler \<Rightarrow> node_id \<Rightarrow> bool" where
  "node_type_declared s node_id =
     (case node_tags (provider s) node_id TAG_RAY_USER_NODE_TYPE of
        None \<Rightarrow> True
      | Some t \<Rightarrow>
          (case available_node_types (config s) t of
             None \<Rightarrow> False
           | Some nt \<Rightarrow> nt_node_config nt \<noteq> None))"

text \<open>The fields that only \<^verbatim>\<open>update\<close> and the gate of \<^verbatim>\<open>_update\<close> write.\<close>

definition same_bookkeeping :: "autoscaler \<Rightarrow> autoscaler \<Rightarrow> bool" where
  "same_bookkeeping s s' \<longleftrightarrow>
     num_failures s' = num_failures s \<and> max_failures s' = max_failures s
     \<and> last_update_time s' = last_update_time s \<and> config s' = config s"

subsection \<open>Example clusters\<close>

text \<open>
  Concrete collaborators: the launch hash is the image id of the launch config, the head
  node IP is not substituted into commands, the scheduler launches nothing, and the bin
  packer places the whole demand on the first node, of which 4 CPUs remain.
\<close>

definition ex_collab :: collaborators where
  "ex_collab =
     \<lparr>hash_launch_conf = (\<lambda>lc a. case lc ''image_id'' of Some v \<Rightarrow> v | None \<Rightarrow> ''''),
      with_head_node_ip = (\<lambda>cmds ip. cmds),
      get_bin_pack_residual =
        (\<lambda>nodes demand. ([], case nodes of [] \<Rightarrow> [] | n # rest \<Rightarrow> [''CPU'' \<mapsto> 4] # rest)),
      get_nodes_to_launch = (\<lambda>s. []),
      AUTOSCALER_HEARTBEAT_TIMEOUT_S = 30\<rparr>"

definition ex_type_A :: node_type_config where
  "ex_type_A =
     \<lparr>nt_resources = Some [''CPU'' \<mapsto> 8], nt_node_config = Some Map.empty,
      nt_min_workers = Some 2, nt_max_workers = Some 5,
      nt_worker_setup_commands = None, nt_initialization_commands = None,
      nt_docker = None\<rparr>"

text \<open>A node type that declares \<^verbatim>\<open>min_workers\<close> but no \<^verbatim>\<open>max_workers\<close>.\<close>

definition ex_type_B :: node_type_config where
  "ex_type_B = ex_type_A\<lparr>nt_min_workers := Some 3, nt_max_workers := None\<rparr>"

definition ex_config :: cluster_config where
  "ex_config =
     \<lparr>provider_type = ''aws'', max_workers = 5, idle_timeout_minutes = 5,
      worker_nodes = [''image_id'' \<mapsto> ''ami-1''], auth = Map.empty,
      available_node_types = [''A'' \<mapsto> ex_type_A, ''B'' \<mapsto> ex_type_B],
      worker_setup_commands = [''install''], worker_start_ray_commands = [''start''],
      initialization_commands = [], docker = None, restart_only = None,
      no_restart = None\<rparr>"

text \<open>The tags of a worker of type \<open>ty\<close> launched from \<open>img\<close> and last set up with \<open>rt\<close>.\<close>

definition ex_tags :: "string \<Rightarrow> string \<Rightarrow> string \<Rightarrow> string pydict_str" where
  "ex_tags ty img rt =
     [TAG_RAY_NODE_KIND \<mapsto> NODE_KIND_WORKER, TAG_RAY_USER_NODE_TYPE \<mapsto> ty,
      TAG_RAY_LAUNCH_CONFIG \<mapsto> img, TAG_RAY_NODE_STATUS \<mapsto> STATUS_UP_TO_DATE,
      TAG_RAY_RUNTIME_CONFIG \<mapsto> rt]"

definition ex_fresh :: "node_id \<Rightarrow> string pydict_str" where
  "ex_fresh n = ex_tags ''A'' ''ami-1'' ''rt-1''"

text \<open>
  An autoscaler right after construction, over the nodes \<open>ns\<close> with tags \<open>tg\<close> and
  last-used times \<open>lu\<close>.
\<close>

definition ex_state ::
  "node_id list \<Rightarrow> (node_id \<Rightarrow> string pydict_str) \<Rightarrow> (string \<times> real) list \<Rightarrow> autoscaler" where
  "ex_state ns tg lu =
     \<lparr>config = ex_config, runtime_hash = ''rt-1'', file_mounts_contents_hash = None,
      provider = \<lparr>node_list = ns, node_tags = tg, internal_ip = (\<lambda>n. ''ip-'' @ n),
                  outage = None\<rparr>,
      load_metrics = \<lparr>local_ip = ''ip-head'', last_used_time_by_ip = lu,
                       last_heartbeat_time_by_ip = [], marked_active = []\<rparr>,
      max_failures = 5, max_launch_batch = 5, updaters = [],
      num_failed_updates = (\<lambda>_. 0), num_successful_updates = (\<lambda>_. 0),
      num_failures = 0, last_update_time = 0, update_interval_s = 5,
      launch_queue = [], pending_launches = (\<lambda>_. 0), resource_demand_vector = []\<rparr>"

text \<open>Two workers, the second more recently used, and a cluster-wide limit of one.\<close>

definition ex_two_workers :: autoscaler where
  "ex_two_workers =
     (ex_state [''a'', ''b''] ex_fresh [(''ip-a'', 50), (''ip-b'', 100)])
       \<lparr>config := ex_config\<lparr>max_workers := 1\<rparr>\<rparr>"

text \<open>
  Five workers of type A (\<^verbatim>\<open>min_workers\<close> 2, \<^verbatim>\<open>max_workers\<close> 5), idle timeout 5
  minutes, each last used at least 10 minutes before time 1000.
\<close>

definition ex_scenario_2 :: autoscaler where
  "ex_scenario_2 =
     ex_state [''n1'', ''n2'', ''n3'', ''n4'', ''n5''] ex_fresh
       [(''ip-n1'', 100), (''ip-n2'', 400), (''ip-n3'', 200), (''ip-n4'', 390),
        (''ip-n5'', 300)]"

definition ex_alive :: updater where
  "ex_alive = started_updater False [] [''install''] [''start''] None Map.empty"

definition ex_dead :: "int \<Rightarrow> updater" where
  "ex_dead code = ex_alive\<lparr>is_alive := False, exitcode := code\<rparr>"

text \<open>Two updaters have finished, the first with exit code 0 and the second with 1.\<close>

definition ex_two_completed :: autoscaler where
  "ex_two_completed =
     (ex_state [''n1'', ''n2''] ex_fresh [(''ip-n1'', 100), (''ip-n2'', 100)])
       \<lparr>updaters := [(''n1'', ex_dead 0), (''n2'', ex_dead 1)]\<rparr>"

text \<open>A fresh cluster: no workers, and no heartbeat has filled the last-used times.\<close>

definition ex_no_heartbeat_yet :: autoscaler where
  "ex_no_heartbeat_yet = ex_state [] ex_fresh []"

text \<open>The most recently used of two workers carries an outdated launch hash.\<close>

definition ex_stale_first :: autoscaler where
  "ex_stale_first =
     ex_state [''n1'', ''n2'']
       (\<lambda>n. if n = ''n1'' then ex_tags ''A'' ''ami-0'' ''rt-1'' else ex_fresh n)
       [(''ip-n1'', 990), (''ip-n2'', 980)]"

text \<open>
  Four workers: \<open>n1\<close> is being updated, \<open>n2\<close> has an outdated launch hash, an update of
  \<open>n3\<close> has failed, and \<open>n4\<close> has an outdated runtime hash and a heartbeat 100 seconds
  before time 1000.
\<close>

definition ex_four_workers :: autoscaler where
  "ex_four_workers =
     (let base =
        ex_state [''n1'', ''n2'', ''n3'', ''n4'']
          (\<lambda>n. if n = ''n2'' then ex_tags ''A'' ''ami-0'' ''rt-1''
                else if n = ''n4'' then ex_tags ''A'' ''ami-1'' ''rt-0'' else ex_fresh n)
          [(''ip-n1'', 990), (''ip-n2'', 980), (''ip-n3'', 970), (''ip-n4'', 960)]
      in base\<lparr>updaters := [(''n1'', ex_alive)],
              num_failed_updates := (\<lambda>_. 0)(''n3'' := 1),
              load_metrics := (load_metrics base)
                \<lparr>last_heartbeat_time_by_ip := [(''ip-n4'', 900)]\<rparr>\<rparr>)"


text \<open>A Kubernetes cluster whose API server is unreachable.\<close>

definition ex_k8s_outage :: autoscaler where
  "ex_k8s_outage =
     (let base = ex_state [''n1''] ex_fresh [(''ip-n1'', 990)]
      in base\<lparr>config := ex_config\<lparr>provider_type := ''kubernetes''\<rparr>,
              provider := (provider base)\<lparr>outage := Some MaxRetryError\<rparr>\<rparr>)"

text \<open>One idle worker of the type without \<^verbatim>\<open>max_workers\<close>.\<close>

definition ex_type_B_idle :: autoscaler where
  "ex_type_B_idle =
     ex_state [''b1''] (\<lambda>n. ex_tags ''B'' ''ami-1'' ''rt-1'') [(''ip-b1'', 100)]"

text \<open>
  A node type that overrides \<^verbatim>\<open>worker_setup_commands\<close> and \<^verbatim>\<open>docker\<close>.
\<close>

definition ex_type_C :: node_type_config where
  "ex_type_C = ex_type_A\<lparr>nt_worker_setup_commands := Some [''typed-install''],
                          nt_docker := Some [''image'' \<mapsto> ''typed'']\<rparr>"

text \<open>
  An untyped worker \<open>u1\<close> and a worker \<open>c1\<close> of the overriding type, both with an
  outdated runtime hash; \<open>c1\<close> has a successful update and \<^verbatim>\<open>no_restart\<close> is set.
\<close>

definition ex_override :: autoscaler where
  "ex_override =
     (let base =
        ex_state [''u1'', ''c1'']
          (\<lambda>n. if n = ''u1''
                then [TAG_RAY_NODE_KIND \<mapsto> NODE_KIND_WORKER,
                      TAG_RAY_LAUNCH_CONFIG \<mapsto> ''ami-1'',
                      TAG_RAY_NODE_STATUS \<mapsto> STATUS_UP_TO_DATE,
                      TAG_RAY_RUNTIME_CONFIG \<mapsto> ''rt-0'']
                else ex_tags ''C'' ''ami-1'' ''rt-0'')
          [(''ip-u1'', 990), (''ip-c1'', 980)]
      in base\<lparr>config := ex_config\<lparr>available_node_types := [''C'' \<mapsto> ex_type_C],
                                     docker := Some [''image'' \<mapsto> ''base''],
                                     no_restart := Some True\<rparr>,
              num_successful_updates := (\<lambda>_. 0)(''c1'' := 1)\<rparr>)"

section \<open>Lemmas\<close>

lemmas ex_defs = ex_collab_def ex_type_A_def ex_type_B_def ex_config_def ex_tags_def
  ex_state_def ex_fresh_def ex_alive_def ex_dead_def started_updater_def

lemmas tick_defs = update_tick_def terminate_phase_def workers_def all_workers_def
  unmanaged_workers_def non_terminated_nodes_def prune_active_ips_def idle_or_outdated_def
  sort_based_on_last_used_def walk_step_def keep_min_worker_of_node_type_def
  launch_config_ok_def terminate_and_reread_def terminate_excess_def terminate_nodes_def
  Let_def

lemmas node_defs = reap_def reap_one_def mark_active_def update_nodes_def dispatch_def
  should_update_def can_update_def files_up_to_date_def run_thread_def spawn_updater_def
  get_node_type_specific_fields_def get_node_specific_docker_config_def node_resources_def
  recover_if_needed_def launch_phase_def update_def reset_def
  handle_tick_exception_def no_update_def



lemma should_update_null_iff:
  "(should_update c s n = Inr no_update) \<longleftrightarrow>
     (can_update c s n = Inr False \<or>
      (can_update c s n = Inr True
       \<and> node_tags (provider s) n TAG_RAY_NODE_STATUS = Some STATUS_UP_TO_DATE
       \<and> files_up_to_date s n))"
  by (auto simp: should_update_def no_update_def Let_def split: sum.splits if_splits prod.splits)

lemma docker_ok:
  "get_node_type_specific_fields s n (flds::'a) sel = Inr x \<Longrightarrow>
   \<exists>dc. get_node_specific_docker_config s n = Inr dc"
  by (auto simp: get_node_specific_docker_config_def get_node_type_specific_fields_def
      split: option.splits)

lemma should_update_commands:
  assumes "can_update c s n = Inr True"
    and "\<not> (node_tags (provider s) n TAG_RAY_NODE_STATUS = Some STATUS_UP_TO_DATE
           \<and> files_up_to_date s n)"
    and "get_node_type_specific_fields s n (worker_setup_commands (config s))
           nt_worker_setup_commands = Inr cmds"
  shows "\<exists>dc. should_update c s n =
      Inr \<lparr>ui_node_id = Some n,
           ui_init_commands =
             Some (if num_successful_updates s n > 0 \<and> restart_only (config s) = Some True
                   then [] else cmds),
           ui_start_ray_commands =
             Some (if num_successful_updates s n > 0 \<and> restart_only (config s) = Some True
                   then worker_start_ray_commands (config s)
                   else if num_successful_updates s n > 0 \<and> no_restart (config s) = Some True
                   then [] else worker_start_ray_commands (config s)),
           ui_docker_config = Some dc\<rparr>"
proof -
  obtain dc where dc: "get_node_specific_docker_config s n = Inr dc"
    using docker_ok[OF assms(3)] by blast
  show ?thesis
    using assms dc by (auto simp: should_update_def Let_def)
qed

lemma launch_config_ok_total:
  "node_type_declared s n \<Longrightarrow> \<exists>b. launch_config_ok c s n = Inr b"
  by (auto simp: node_type_declared_def launch_config_ok_def Let_def split: option.splits)

lemma keep_min_total:
  "node_type_declared s n \<Longrightarrow> \<exists>b cs. keep_min_worker_of_node_type s n counts = Inr (b, cs)"
  by (auto simp: node_type_declared_def keep_min_worker_of_node_type_def Let_def
      split: option.splits)

lemma walk_step_total:
  assumes "node_type_declared s n"
  shows "\<exists>d cs. walk_step c s lu h al n counts = Inr (d, cs)"
proof -
  obtain b where b: "launch_config_ok c s n = Inr b"
    using launch_config_ok_total[OF assms] by blast
  obtain k cs where k: "keep_min_worker_of_node_type s n counts = Inr (k, cs)"
    using keep_min_total[OF assms] by blast
  show ?thesis
    by (cases b) (simp_all add: walk_step_def b k Let_def)
qed

lemma walk_step_stale:
  assumes "walk_step c s lu h al n counts = Inr (d, cs)"
    and "launch_config_ok c s n = Inr False"
  shows "d = Terminate_idle \<or> d = Terminate_outdated"
  using assms
  by (auto simp: walk_step_def Let_def split: sum.splits prod.splits if_splits bool.splits)

lemma walk_step_skip:
  assumes "walk_step c s lu h al n counts = Inr (Skip, cs)"
  shows "launch_config_ok c s n = Inr True"
  using assms
  by (auto simp: walk_step_def Let_def split: sum.splits prod.splits if_splits bool.splits)

lemma walk_acc_mono:
  "walk c s lu h al ns counts acc = Inr r \<Longrightarrow> set acc \<subseteq> set r"
proof (induction ns arbitrary: counts acc)
  case Nil
  then show ?case by simp
next
  case (Cons n ns)
  then show ?case
    by (fastforce split: sum.splits prod.splits if_splits)
qed

lemma walk_total:
  "\<forall>m\<in>set ns. node_type_declared s m \<Longrightarrow> \<exists>r. walk c s lu h al ns counts acc = Inr r"
proof (induction ns arbitrary: counts acc)
  case Nil
  then show ?case by simp
next
  case (Cons n ns)
  then obtain d cs where "walk_step c s lu h al n counts = Inr (d, cs)"
    using walk_step_total[of s n c lu h al counts] by auto
  then show ?case using Cons by simp
qed

lemma walk_stale:
  assumes "walk c s lu h al ns counts acc = Inr r"
    and "n \<in> set ns" and "launch_config_ok c s n = Inr False"
  shows "n \<in> set r"
  using assms
proof (induction ns arbitrary: counts acc)
  case Nil
  then show ?case by simp
next
  case (Cons m ns)
  from Cons.prems(1) obtain d cs where
    st: "walk_step c s lu h al m counts = Inr (d, cs)" and
    w: "walk c s lu h al ns cs
          (if d = Terminate_idle \<or> d = Terminate_outdated then acc @ [m] else acc) = Inr r"
    by (auto split: sum.splits prod.splits)
  show ?case
  proof (cases "n = m")
    case True
    with st Cons.prems(3) have "d = Terminate_idle \<or> d = Terminate_outdated"
      using walk_step_stale by blast
    with w walk_acc_mono[OF w] True show ?thesis by auto
  next
    case False
    with Cons.prems(2) have "n \<in> set ns" by simp
    from Cons.IH[OF w this Cons.prems(3)] show ?thesis .
  qed
qed

lemma sort_based_on_last_used_set:
  "sort_based_on_last_used p nodes lu = Inr sorted_ids \<Longrightarrow> set sorted_ids = set nodes"
  by (auto simp: sort_based_on_last_used_def Let_def split: list.splits prod.splits)

lemma idle_or_outdated_stale:
  assumes "idle_or_outdated c now nodes s = Inr r"
    and "n \<in> set nodes" and "launch_config_ok c s n = Inr False"
  shows "n \<in> set r"
proof -
  from assms(1) obtain sorted_ids al where
    so: "sort_based_on_last_used (provider s) nodes (last_used_time_by_ip (load_metrics s))
           = Inr sorted_ids" and
    w: "walk c s (last_used_time_by_ip (load_metrics s))
          (now - 60 * idle_timeout_minutes (config s)) al sorted_ids (\<lambda>_. 0) [] = Inr r"
    by (auto simp: idle_or_outdated_def Let_def split: sum.splits)
  from sort_based_on_last_used_set[OF so] assms(2) have "n \<in> set sorted_ids" by simp
  from walk_stale[OF w this assms(3)] show ?thesis .
qed

lemma keep_min_no_max_workers:
  assumes "node_tags (provider s) n TAG_RAY_USER_NODE_TYPE = Some t"
    and "available_node_types (config s) t = Some nt"
    and "nt_max_workers nt = None"
    and "0 \<le> counts t"
  shows "keep_min_worker_of_node_type s n counts = Inr (False, counts(t := counts t + 1))"
  using assms
  by (auto simp: keep_min_worker_of_node_type_def Let_def split: option.splits)

lemma keep_min_counts_nonneg:
  "keep_min_worker_of_node_type s n counts = Inr (b, cs) \<Longrightarrow> \<forall>t. 0 \<le> counts t \<Longrightarrow>
   \<forall>t. 0 \<le> cs t"
  by (auto simp: keep_min_worker_of_node_type_def Let_def split: option.splits if_splits)

lemma walk_step_counts_nonneg:
  "walk_step c s lu h al n counts = Inr (d, cs) \<Longrightarrow> \<forall>t. 0 \<le> counts t \<Longrightarrow> \<forall>t. 0 \<le> cs t"
  by (auto simp: walk_step_def Let_def dest: keep_min_counts_nonneg
      split: sum.splits prod.splits if_splits bool.splits)

lemma walk_step_idle_no_max_workers:
  assumes st: "walk_step c s lu h al n counts = Inr (d, cs)"
    and ty: "node_tags (provider s) n TAG_RAY_USER_NODE_TYPE = Some t"
            "available_node_types (config s) t = Some nt" "nt_max_workers nt = None"
    and nn: "\<forall>t. 0 \<le> counts t"
    and al: "al n \<noteq> Some False"
    and idle: "map_of lu (internal_ip (provider s) n) = Some tm" "tm < h"
  shows "d = Terminate_idle"
proof -
  have k: "keep_min_worker_of_node_type s n counts = Inr (False, counts(t := counts t + 1))"
    using keep_min_no_max_workers[OF ty] nn by simp
  have a: "(case al n of Some b \<Rightarrow> b | None \<Rightarrow> True)"
    using al by (cases "al n") auto
  show ?thesis
    using st idle a by (simp add: walk_step_def k Let_def)
qed

lemma walk_idle_no_max_workers:
  assumes "walk c s lu h al ns counts acc = Inr r"
    and "n \<in> set ns"
    and "node_tags (provider s) n TAG_RAY_USER_NODE_TYPE = Some t"
        "available_node_types (config s) t = Some nt" "nt_max_workers nt = None"
    and "\<forall>t. 0 \<le> counts t"
    and "al n \<noteq> Some False"
    and "map_of lu (internal_ip (provider s) n) = Some tm" "tm < h"
  shows "n \<in> set r"
  using assms(1,2,6)
proof (induction ns arbitrary: counts acc)
  case Nil
  then show ?case by simp
next
  case (Cons m ns)
  from Cons.prems(1) obtain d cs where
    st: "walk_step c s lu h al m counts = Inr (d, cs)" and
    w: "walk c s lu h al ns cs
          (if d = Terminate_idle \<or> d = Terminate_outdated then acc @ [m] else acc) = Inr r"
    by (auto split: sum.splits prod.splits)
  have nn: "\<forall>t. 0 \<le> cs t"
    using walk_step_counts_nonneg[OF st Cons.prems(3)] .
  show ?case
  proof (cases "n = m")
    case True
    have "d = Terminate_idle"
      using walk_step_idle_no_max_workers[OF st[folded True] assms(3,4,5) Cons.prems(3) assms(7,8,9)] .
    with w walk_acc_mono[OF w] True show ?thesis by auto
  next
    case False
    with Cons.prems(2) have "n \<in> set ns" by simp
    from Cons.IH[OF w this nn] show ?thesis .
  qed
qed

lemma idle_or_outdated_no_max_workers:
  assumes "idle_or_outdated c now nodes s = Inr r"
    and "n \<in> set nodes"
    and "node_tags (provider s) n TAG_RAY_USER_NODE_TYPE = Some t"
        "available_node_types (config s) t = Some nt" "nt_max_workers nt = None"
    and "resource_demand_vector s = []"
    and "map_of (last_used_time_by_ip (load_metrics s)) (internal_ip (provider s) n) = Some tm"
        "tm < now - 60 * idle_timeout_minutes (config s)"
  shows "n \<in> set r"
proof -
  from assms(1,6) obtain sorted_ids where
    so: "sort_based_on_last_used (provider s) nodes (last_used_time_by_ip (load_metrics s))
           = Inr sorted_ids" and
    w: "walk c s (last_used_time_by_ip (load_metrics s))
          (now - 60 * idle_timeout_minutes (config s)) Map.empty sorted_ids (\<lambda>_. 0) [] = Inr r"
    by (auto simp: idle_or_outdated_def Let_def split: sum.splits)
  from sort_based_on_last_used_set[OF so] assms(2) have "n \<in> set sorted_ids" by simp
  from walk_idle_no_max_workers[OF w this assms(3,4,5) _ _ assms(7,8)] show ?thesis by simp
qed



lemma collect_typed_snd:
  "collect_typed s ids = Inr typed \<Longrightarrow> (n, r) \<in> set typed \<Longrightarrow>
   \<exists>t nt. node_tags (provider s) n TAG_RAY_USER_NODE_TYPE = Some t
      \<and> available_node_types (config s) t = Some nt \<and> nt_resources nt = Some r"
  by (induction ids arbitrary: typed) (auto split: option.splits sum.splits)


lemma excess_loop_suffix:
  "excess_loop nodes t m = (ns', ts) \<Longrightarrow> \<exists>popped. nodes = ns' @ rev popped \<and> ts = t @ popped"
proof (induction nodes t m arbitrary: ns' ts rule: excess_loop.induct)
  case (1 nodes t m)
  show ?case
  proof (cases "int (length nodes) - int (length t) > m \<and> nodes \<noteq> []")
    case True
    with "1.prems" have "excess_loop (butlast nodes) (t @ [last nodes]) m = (ns', ts)"
      by (simp add: excess_loop.simps[of nodes])
    from "1.IH"[OF True this] obtain popped where
      p: "butlast nodes = ns' @ rev popped" "ts = (t @ [last nodes]) @ popped" by blast
    have "nodes = butlast nodes @ [last nodes]" using True by simp
    with p have "nodes = ns' @ rev (last nodes # popped) \<and> ts = t @ (last nodes # popped)"
      by simp
    then show ?thesis by blast
  next
    case False
    with "1.prems" have "ns' = nodes \<and> ts = t" by (simp add: excess_loop.simps[of nodes])
    then show ?thesis by simp
  qed
qed

lemma excess_loop_first:
  assumes "int (length nodes) > m" and "nodes \<noteq> []" and "excess_loop nodes [] m = (ns', ts)"
  shows "ts \<noteq> [] \<and> hd ts = last nodes"
proof -
  from assms have e: "excess_loop (butlast nodes) [last nodes] m = (ns', ts)"
    by (simp add: excess_loop.simps[of nodes "[]"])
  from excess_loop_suffix[OF e] show ?thesis by auto
qed

lemma excess_loop_count:
  "excess_loop nodes t m = (ns', ts) \<Longrightarrow>
   length ts = length t + min (length nodes) (nat ((int (length nodes) - int (length t) - m + 1) div 2))"
proof (induction nodes t m arbitrary: ns' ts rule: excess_loop.induct)
  case (1 nodes t m)
  show ?case
  proof (cases "int (length nodes) - int (length t) > m \<and> nodes \<noteq> []")
    case True
    with "1.prems" have "excess_loop (butlast nodes) (t @ [last nodes]) m = (ns', ts)"
      by (simp add: excess_loop.simps[of nodes])
    from "1.IH"[OF True this] True show ?thesis
      by (cases nodes rule: rev_cases) (auto simp: min_def nat_add_distrib split: if_splits)
  next
    case False
    with "1.prems" have "ns' = nodes \<and> ts = t" by (simp add: excess_loop.simps[of nodes])
    with False show ?thesis by (auto simp: min_def)
  qed
qed

lemma same_bookkeeping_refl: "same_bookkeeping s s"
  by (simp add: same_bookkeeping_def)

lemma same_bookkeeping_trans:
  "same_bookkeeping s s1 \<Longrightarrow> same_bookkeeping s1 s2 \<Longrightarrow> same_bookkeeping s s2"
  by (simp add: same_bookkeeping_def)

lemma terminate_and_reread_frame:
  "terminate_and_reread t ns s = (r, s') \<Longrightarrow>
   same_bookkeeping s s' \<and> updaters s' = updaters s"
  by (auto simp: terminate_and_reread_def same_bookkeeping_def Let_def split: if_splits)

lemma terminate_excess_frame:
  "terminate_excess ns s = (r, s') \<Longrightarrow> same_bookkeeping s s' \<and> updaters s' = updaters s"
  by (auto simp: terminate_excess_def Let_def split: prod.splits
      dest: terminate_and_reread_frame)

lemma terminate_phase_frame:
  assumes "terminate_phase c now s = (r, s')"
  shows "same_bookkeeping s s' \<and> updaters s' = updaters s"
proof (cases "workers s")
  case (Inl e)
  with assms show ?thesis by (simp add: terminate_phase_def same_bookkeeping_refl)
next
  case w: (Inr nodes)
  show ?thesis
  proof (cases "all_workers s")
    case (Inl e)
    with assms w show ?thesis by (simp add: terminate_phase_def same_bookkeeping_refl)
  next
    case aw: (Inr aw)
    define s1 where "s1 = s\<lparr>load_metrics :=
             prune_active_ips (map (internal_ip (provider s)) aw) (load_metrics s)\<rparr>"
    have f1: "same_bookkeeping s s1 \<and> updaters s1 = updaters s"
      by (simp add: same_bookkeeping_def s1_def)
    show ?thesis
    proof (cases "idle_or_outdated c now nodes s1")
      case (Inl e)
      with assms w aw have "s' = s1"
        by (simp add: terminate_phase_def s1_def[symmetric] Let_def)
      with f1 show ?thesis by simp
    next
      case io: (Inr nodes_to_terminate)
      obtain r2 s2 where a: "terminate_and_reread nodes_to_terminate nodes s1 = (r2, s2)"
        by (cases "terminate_and_reread nodes_to_terminate nodes s1")
      note f2 = terminate_and_reread_frame[OF a]
      show ?thesis
      proof (cases r2)
        case (Inl e)
        with assms w aw io a have "s' = s2"
          by (simp add: terminate_phase_def s1_def[symmetric] Let_def)
        with f1 f2 show ?thesis by (auto intro: same_bookkeeping_trans)
      next
        case r2: (Inr nodes2)
        obtain r3 s3 where b: "terminate_excess nodes2 s2 = (r3, s3)"
          by (cases "terminate_excess nodes2 s2")
        note f3 = terminate_excess_frame[OF b]
        from assms w aw io a r2 b have "s' = s3"
          by (cases r3) (simp_all add: terminate_phase_def s1_def[symmetric] Let_def)
        with f1 f2 f3 show ?thesis by (auto intro: same_bookkeeping_trans)
      qed
    qed
  qed
qed

lemma launch_new_node_frame:
  "launch_new_node count nt s = Some s' \<Longrightarrow>
   same_bookkeeping s s' \<and> updaters s' = updaters s"
  by (auto simp: launch_new_node_def Let_def same_bookkeeping_def split: option.splits)

lemma launch_all_frame:
  "launch_all xs s = Some s' \<Longrightarrow> same_bookkeeping s s' \<and> updaters s' = updaters s"
proof (induction xs arbitrary: s)
  case Nil
  then show ?case by (simp add: same_bookkeeping_refl)
next
  case (Cons x xs)
  obtain nt count where x: "x = (nt, count)" by (cases x)
  from Cons.prems x obtain s1 where
    a: "launch_new_node count nt s = Some s1" and b: "launch_all xs s1 = Some s'"
    by (auto split: option.splits)
  from launch_new_node_frame[OF a] Cons.IH[OF b] show ?case
    by (auto intro: same_bookkeeping_trans)
qed

lemma launch_phase_frame:
  "launch_phase c s = Some (r, s') \<Longrightarrow> same_bookkeeping s s' \<and> updaters s' = updaters s"
  by (auto simp: launch_phase_def same_bookkeeping_refl split: sum.splits option.splits
      dest: launch_all_frame)

lemma reap_one_frame:
  "reap_one n s = Inr s' \<Longrightarrow>
   same_bookkeeping s s' \<and> updaters s' = AList.delete n (updaters s)"
  by (auto simp: reap_one_def Let_def same_bookkeeping_def split: option.splits if_splits)

lemma reap_loop_frame:
  "reap_loop ns s = (r, s') \<Longrightarrow>
   same_bookkeeping s s' \<and> (distinct (map fst (updaters s)) \<longrightarrow> distinct (map fst (updaters s')))"
proof (induction ns arbitrary: s)
  case Nil
  then show ?case by (simp add: same_bookkeeping_refl)
next
  case (Cons n ns)
  show ?case
  proof (cases "reap_one n s")
    case (Inl e)
    with Cons.prems show ?thesis by (simp add: same_bookkeeping_refl)
  next
    case (Inr s1)
    with Cons.prems have b: "reap_loop ns s1 = (r, s')" by simp
    from reap_one_frame[OF Inr] Cons.IH[OF b] show ?thesis
      by (auto intro: same_bookkeeping_trans simp: distinct_delete)
  qed
qed

lemma reap_frame:
  "reap s = (r, s') \<Longrightarrow>
   same_bookkeeping s s' \<and> (distinct (map fst (updaters s)) \<longrightarrow> distinct (map fst (updaters s')))"
  by (auto simp: reap_def Let_def same_bookkeeping_refl same_bookkeeping_def
      split: if_splits prod.splits sum.splits dest!: reap_loop_frame)

lemma spawn_updater_frame:
  "spawn_updater c n ic rc res dc s = Inr s' \<Longrightarrow>
   same_bookkeeping s s' \<and> (\<exists>u. updaters s' = AList.update n u (updaters s))"
  by (auto simp: spawn_updater_def Let_def same_bookkeeping_def split: sum.splits)

lemma run_thread_frame:
  "same_bookkeeping s (run_thread c s0 instr s)
   \<and> (distinct (map fst (updaters s)) \<longrightarrow> distinct (map fst (updaters (run_thread c s0 instr s))))"
  by (auto simp: run_thread_def same_bookkeeping_refl distinct_update
      split: option.splits sum.splits dest!: spawn_updater_frame)

lemma fold_run_thread_frame:
  "same_bookkeeping s (fold (run_thread c s0) instrs s)
   \<and> (distinct (map fst (updaters s)) \<longrightarrow>
        distinct (map fst (updaters (fold (run_thread c s0) instrs s))))"
proof (induction instrs arbitrary: s)
  case Nil
  then show ?case by (simp add: same_bookkeeping_refl)
next
  case (Cons i instrs)
  from run_thread_frame[of s c s0 i] Cons.IH[of "run_thread c s0 i s"] show ?case
    by (auto intro: same_bookkeeping_trans)
qed

lemma dispatch_frame:
  "dispatch c ns s = (r, s') \<Longrightarrow>
   same_bookkeeping s s' \<and> (distinct (map fst (updaters s)) \<longrightarrow> distinct (map fst (updaters s')))"
  using fold_run_thread_frame[of s c s]
  by (auto simp: dispatch_def same_bookkeeping_refl split: sum.splits)

lemma update_absent: "map_of al k = None \<Longrightarrow> AList.update k v al = al @ [(k, v)]"
  by (induction al) (auto split: if_splits)

lemma recover_if_needed_frame:
  "recover_if_needed c n now s = (r, s') \<Longrightarrow>
   same_bookkeeping s s'
   \<and> (updaters s' = updaters s
      \<or> (map_of (updaters s) n = None \<and> (\<exists>u. updaters s' = updaters s @ [(n, u)])))"
  by (auto simp: recover_if_needed_def can_update_def Let_def same_bookkeeping_def update_absent
      split: sum.splits if_splits option.splits)

lemma recover_if_needed_distinct:
  assumes "recover_if_needed c n now s = (r, s')" and "distinct (map fst (updaters s))"
  shows "distinct (map fst (updaters s'))"
proof -
  from recover_if_needed_frame[OF assms(1)] assms(2) show ?thesis
    by (auto simp: map_of_eq_None_iff)
qed

lemma recover_all_frame:
  "recover_all c ns now s = (r, s') \<Longrightarrow>
   same_bookkeeping s s' \<and> (distinct (map fst (updaters s)) \<longrightarrow> distinct (map fst (updaters s')))"
proof (induction ns arbitrary: s)
  case Nil
  then show ?case by (simp add: same_bookkeeping_refl)
next
  case (Cons n ns)
  obtain r1 s1 where a: "recover_if_needed c n now s = (r1, s1)"
    by (cases "recover_if_needed c n now s")
  have f1: "same_bookkeeping s s1" using recover_if_needed_frame[OF a] by simp
  have d1: "distinct (map fst (updaters s)) \<longrightarrow> distinct (map fst (updaters s1))"
    using recover_if_needed_distinct[OF a] by simp
  show ?case
  proof (cases r1)
    case (Inl e)
    with Cons.prems a have "s' = s1" by simp
    with f1 d1 show ?thesis by simp
  next
    case (Inr u)
    with Cons.prems a have "recover_all c ns now s1 = (r, s')" by simp
    from Cons.IH[OF this] f1 d1 show ?thesis by (auto intro: same_bookkeeping_trans)
  qed
qed

lemma update_nodes_frame:
  assumes "update_nodes c now s = (r, s')"
  shows "same_bookkeeping s s'
     \<and> (distinct (map fst (updaters s)) \<longrightarrow> distinct (map fst (updaters s')))"
proof (cases "workers s")
  case (Inl e)
  with assms show ?thesis by (simp add: update_nodes_def same_bookkeeping_refl)
next
  case (Inr nodes)
  obtain r1 s1 where a: "reap s = (r1, s1)" by (cases "reap s")
  note f1 = reap_frame[OF a]
  show ?thesis
  proof (cases r1)
    case (Inl e)
    with assms Inr a f1 show ?thesis by (simp add: update_nodes_def)
  next
    case r1: (Inr u)
    show ?thesis
    proof (cases "workers s1")
      case (Inl e)
      with assms Inr a r1 f1 show ?thesis by (simp add: update_nodes_def)
    next
      case w1: (Inr nodes1)
      obtain r2 s2 where b: "dispatch c nodes1 s1 = (r2, s2)" by (cases "dispatch c nodes1 s1")
      note f2 = dispatch_frame[OF b]
      show ?thesis
      proof (cases r2)
        case (Inl e)
        with assms Inr a r1 w1 b f1 f2 show ?thesis
          by (auto simp: update_nodes_def intro: same_bookkeeping_trans)
      next
        case r2: (Inr u2)
        with assms Inr a r1 w1 b have "recover_all c nodes1 now s2 = (r, s')"
          by (simp add: update_nodes_def)
        from recover_all_frame[OF this] f1 f2 show ?thesis
          by (auto intro: same_bookkeeping_trans)
      qed
    qed
  qed
qed

lemma update_tick_gate:
  "now - last_update_time s < update_interval_s s \<Longrightarrow> update_tick c now s = Some (Inr (), s)"
  by (simp add: update_tick_def)

lemma update_tick_frame:
  assumes "update_tick c now s = Some (r, s')"
  shows "num_failures s' = num_failures s \<and> max_failures s' = max_failures s
     \<and> config s' = config s
     \<and> last_update_time s' =
         (if now - last_update_time s < update_interval_s s then last_update_time s else now)
     \<and> (distinct (map fst (updaters s)) \<longrightarrow> distinct (map fst (updaters s')))"
proof (cases "now - last_update_time s < update_interval_s s")
  case True
  with assms show ?thesis by (simp add: update_tick_def)
next
  case False
  define s0 where "s0 = s\<lparr>last_update_time := now\<rparr>"
  have f0: "num_failures s0 = num_failures s \<and> max_failures s0 = max_failures s
     \<and> config s0 = config s \<and> last_update_time s0 = now \<and> updaters s0 = updaters s"
    by (simp add: s0_def)
  obtain r1 s1 where a: "terminate_phase c now s0 = (r1, s1)"
    by (cases "terminate_phase c now s0")
  note f1 = terminate_phase_frame[OF a, unfolded same_bookkeeping_def]
  show ?thesis
  proof (cases r1)
    case (Inl e)
    with assms False a have "s' = s1" by (simp add: update_tick_def s0_def[symmetric] Let_def)
    with f0 f1 False show ?thesis by simp
  next
    case r1: (Inr u)
    with assms False a obtain r2 s2 where b: "launch_phase c s1 = Some (r2, s2)"
      by (auto simp: update_tick_def s0_def[symmetric] Let_def split: option.splits)
    note f2 = launch_phase_frame[OF b, unfolded same_bookkeeping_def]
    show ?thesis
    proof (cases r2)
      case (Inl e)
      with assms False a r1 b have "s' = s2"
        by (simp add: update_tick_def s0_def[symmetric] Let_def)
      with f0 f1 f2 False show ?thesis by simp
    next
      case (Inr u2)
      with assms False a r1 b have "update_nodes c now s2 = (r, s')"
        by (simp add: update_tick_def s0_def[symmetric] Let_def)
      from update_nodes_frame[OF this, unfolded same_bookkeeping_def] f0 f1 f2 False
      show ?thesis by simp
    qed
  qed
qed

lemma reset_frame:
  "num_failures (reset loaded s) = num_failures s \<and> max_failures (reset loaded s) = max_failures s
   \<and> last_update_time (reset loaded s) = last_update_time s
   \<and> update_interval_s (reset loaded s) = update_interval_s s
   \<and> provider (reset loaded s) = provider s \<and> load_metrics (reset loaded s) = load_metrics s
   \<and> updaters (reset loaded s) = updaters s"
  by (simp add: reset_def split: option.splits prod.splits)

lemma update_tick_empty_last_used:
  assumes "last_used_time_by_ip (load_metrics s) = []" and "outage (provider s) = None"
    and "\<not> now - last_update_time s < update_interval_s s"
  shows "\<exists>s1. update_tick c now s = Some (Inl (ValueError ''min() arg is an empty sequence''), s1)"
proof -
  define s0 where "s0 = s\<lparr>last_update_time := now\<rparr>"
  obtain nodes where w: "workers s0 = Inr nodes"
    using assms(2) by (simp add: workers_def non_terminated_nodes_def s0_def)
  obtain aw where aw: "all_workers s0 = Inr aw"
    using assms(2)
    by (simp add: all_workers_def workers_def unmanaged_workers_def non_terminated_nodes_def
        s0_def)
  define s1 where "s1 = s0\<lparr>load_metrics :=
       prune_active_ips (map (internal_ip (provider s0)) aw) (load_metrics s0)\<rparr>"
  have "last_used_time_by_ip (load_metrics s1) = []"
    using assms(1) by (simp add: s1_def s0_def prune_active_ips_def)
  then have "idle_or_outdated c now nodes s1 =
      Inl (ValueError ''min() arg is an empty sequence'')"
    by (simp add: idle_or_outdated_def sort_based_on_last_used_def Let_def)
  then have "terminate_phase c now s0 =
      (Inl (ValueError ''min() arg is an empty sequence''), s1)"
    by (simp add: terminate_phase_def w aw s1_def[symmetric] Let_def)
  then show ?thesis
    using assms(3) by (simp add: update_tick_def s0_def[symmetric] Let_def)
qed

lemma can_update_True_absent:
  "can_update c s n = Inr True \<Longrightarrow> map_of (updaters s) n = None"
  by (auto simp: can_update_def split: if_splits)

lemma should_update_node_id:
  "should_update c s n = Inr i \<Longrightarrow>
   ui_node_id i = None \<or> (ui_node_id i = Some n \<and> can_update c s n = Inr True)"
  by (auto simp: should_update_def no_update_def Let_def
      split: sum.splits if_splits prod.splits)

lemma run_thread_updaters:
  "ui_node_id i = None \<Longrightarrow> run_thread c s0 i s = s"
  "ui_node_id i = Some n \<Longrightarrow> map_of (updaters s) n = None \<Longrightarrow>
   updaters (run_thread c s0 i s) = updaters s
   \<or> (\<exists>u. updaters (run_thread c s0 i s) = updaters s @ [(n, u)])"
  by (auto simp: run_thread_def update_absent split: sum.splits dest!: spawn_updater_frame)

lemma fold_run_thread_appends:
  assumes "should_update_all c s0 nodes = Inr instrs" and "distinct nodes"
    and "\<forall>n\<in>set nodes. can_update c s0 n = Inr True \<longrightarrow> map_of (updaters s) n = None"
  shows "\<exists>new. updaters (fold (run_thread c s0) instrs s) = updaters s @ new
      \<and> set (map fst new) \<subseteq> {n \<in> set nodes. can_update c s0 n = Inr True}
      \<and> distinct (map fst new)"
  using assms
proof (induction nodes arbitrary: instrs s)
  case Nil
  then show ?case by simp
next
  case (Cons a rest)
  from Cons.prems(1) obtain i is' where
    i: "should_update c s0 a = Inr i" and is': "should_update_all c s0 rest = Inr is'"
    and instrs: "instrs = i # is'"
    by (auto split: sum.splits)
  define s1 where "s1 = run_thread c s0 i s"
  from Cons.prems(2) have d: "distinct rest" and a: "a \<notin> set rest" by auto
  have step: "\<exists>new1. updaters s1 = updaters s @ new1
      \<and> set (map fst new1) \<subseteq> {n. n = a \<and> can_update c s0 a = Inr True} \<and> length new1 \<le> 1"
  proof (cases "ui_node_id i")
    case None
    then show ?thesis using run_thread_updaters(1)[OF None, of c s0 s] by (simp add: s1_def)
  next
    case (Some n)
    with should_update_node_id[OF i] have n: "n = a" and cu: "can_update c s0 a = Inr True"
      by auto
    with Cons.prems(3) have "map_of (updaters s) a = None" by simp
    from run_thread_updaters(2)[OF Some[unfolded n] this, of c s0] cu show ?thesis
      by (auto simp: s1_def)
  qed
  then obtain new1 where new1: "updaters s1 = updaters s @ new1"
    "set (map fst new1) \<subseteq> {n. n = a \<and> can_update c s0 a = Inr True}" "length new1 \<le> 1"
    by blast
  have pre: "\<forall>n\<in>set rest. can_update c s0 n = Inr True \<longrightarrow> map_of (updaters s1) n = None"
  proof (intro ballI impI)
    fix n assume n: "n \<in> set rest" and cu: "can_update c s0 n = Inr True"
    with Cons.prems(3) have "map_of (updaters s) n = None" by simp
    moreover have "n \<notin> fst ` set new1" using new1(2) a n by auto
    ultimately show "map_of (updaters s1) n = None"
      by (simp add: new1(1) map_add_def map_of_eq_None_iff split: option.splits)
  qed
  from Cons.IH[OF is' d pre] obtain new2 where new2:
    "updaters (fold (run_thread c s0) is' s1) = updaters s1 @ new2"
    "set (map fst new2) \<subseteq> {n \<in> set rest. can_update c s0 n = Inr True}"
    "distinct (map fst new2)" by blast
  have dn: "distinct (map fst (new1 @ new2))"
  proof -
    have "distinct (map fst new1)" using new1(3) by (cases new1) auto
    moreover have "set (map fst new1) \<inter> set (map fst new2) = {}"
      using new1(2) new2(2) a by auto
    ultimately show ?thesis using new2(3) by simp
  qed
  have "updaters (fold (run_thread c s0) instrs s) = updaters s @ (new1 @ new2)"
    using new1(1) new2(1) by (simp add: instrs s1_def)
  moreover have "set (map fst (new1 @ new2)) \<subseteq> {n \<in> set (a # rest). can_update c s0 n = Inr True}"
    using new1(2) new2(2) by auto
  ultimately show ?case using dn by blast
qed

lemma dispatch_appends:
  assumes "distinct nodes"
  shows "\<exists>new. updaters (snd (dispatch c nodes s)) = updaters s @ new
      \<and> fst ` set new \<inter> fst ` set (updaters s) = {} \<and> distinct (map fst new)"
proof (cases "should_update_all c s nodes")
  case (Inl e)
  then show ?thesis by (simp add: dispatch_def)
next
  case (Inr instrs)
  have "\<forall>n\<in>set nodes. can_update c s n = Inr True \<longrightarrow> map_of (updaters s) n = None"
    using can_update_True_absent by blast
  from fold_run_thread_appends[OF Inr assms this] obtain new where
    new: "updaters (fold (run_thread c s) instrs s) = updaters s @ new"
    "set (map fst new) \<subseteq> {n \<in> set nodes. can_update c s n = Inr True}"
    "distinct (map fst new)" by blast
  have "fst ` set new \<inter> fst ` set (updaters s) = {}"
  proof -
    { fix n assume "n \<in> fst ` set new" "n \<in> fst ` set (updaters s)"
      with new(2) have "can_update c s n = Inr True" by auto
      from can_update_True_absent[OF this] \<open>n \<in> fst ` set (updaters s)\<close> have False
        by (simp add: map_of_eq_None_iff) }
    then show ?thesis by blast
  qed
  with new show ?thesis by (auto simp: dispatch_def Inr)
qed

lemma update_distinct:
  assumes "update c loaded now s = Some (r, s')" and "distinct (map fst (updaters s))"
  shows "distinct (map fst (updaters s'))"
proof -
  from assms(1) obtain r1 s1 where t: "update_tick c now (reset loaded s) = Some (r1, s1)"
    by (auto simp: update_def split: option.splits)
  from update_tick_frame[OF t] assms(2) reset_frame[of loaded s]
  have d1: "distinct (map fst (updaters s1))" by simp
  have "updaters s' = updaters s1"
    using assms(1) t
    by (cases r1) (auto simp: update_def handle_tick_exception_def Let_def split: if_splits)
  with d1 show ?thesis by simp
qed

lemma get_node_type_specific_fields_untyped:
  "node_tags (provider s) n TAG_RAY_USER_NODE_TYPE = None \<Longrightarrow>
   get_node_type_specific_fields s n flds sel = Inr flds"
  by (simp add: get_node_type_specific_fields_def)

lemma get_node_type_specific_fields_typed:
  "node_tags (provider s) n TAG_RAY_USER_NODE_TYPE = Some t \<Longrightarrow>
   available_node_types (config s) t = Some nt \<Longrightarrow>
   get_node_type_specific_fields s n flds sel =
     Inr (case sel nt of Some f \<Rightarrow> f | None \<Rightarrow> flds)"
  by (simp add: get_node_type_specific_fields_def split: option.splits)

lemma get_node_type_specific_fields_unknown:
  "node_tags (provider s) n TAG_RAY_USER_NODE_TYPE = Some t \<Longrightarrow>
   available_node_types (config s) t = None \<Longrightarrow>
   get_node_type_specific_fields s n flds sel =
     Inl (ValueError (''Unknown node type tag: '' @ t @ ''.''))"
  by (simp add: get_node_type_specific_fields_def)

lemma map_add_self: "(d::'a \<rightharpoonup> 'b) ++ d = d"
  by (rule ext) (simp add: map_add_def split: option.splits)

lemma docker_config_untyped:
  "node_tags (provider s) n TAG_RAY_USER_NODE_TYPE = None \<Longrightarrow>
   get_node_specific_docker_config s n =
     Inr (case docker (config s) of None \<Rightarrow> Map.empty | Some d \<Rightarrow> d)"
  by (simp add: get_node_specific_docker_config_def get_node_type_specific_fields_untyped
      map_add_self split: option.splits)

lemma docker_config_typed:
  "node_tags (provider s) n TAG_RAY_USER_NODE_TYPE = Some t \<Longrightarrow>
   available_node_types (config s) t = Some nt \<Longrightarrow>
   get_node_specific_docker_config s n =
     Inr (case docker (config s) of
            None \<Rightarrow> Map.empty
          | Some d \<Rightarrow> d ++ (case nt_docker nt of Some nd \<Rightarrow> nd | None \<Rightarrow> d))"
  by (simp add: get_node_specific_docker_config_def get_node_type_specific_fields_typed
      split: option.splits)

lemma should_update_untyped:
  assumes "can_update c s n = Inr True"
    and "\<not> (node_tags (provider s) n TAG_RAY_NODE_STATUS = Some STATUS_UP_TO_DATE
           \<and> files_up_to_date s n)"
    and "node_tags (provider s) n TAG_RAY_USER_NODE_TYPE = None"
  shows "should_update c s n =
      Inr \<lparr>ui_node_id = Some n,
           ui_init_commands =
             Some (if num_successful_updates s n > 0 \<and> restart_only (config s) = Some True
                   then [] else worker_setup_commands (config s)),
           ui_start_ray_commands =
             Some (if num_successful_updates s n > 0 \<and> restart_only (config s) = Some True
                   then worker_start_ray_commands (config s)
                   else if num_successful_updates s n > 0 \<and> no_restart (config s) = Some True
                   then [] else worker_start_ray_commands (config s)),
           ui_docker_config =
             Some (case docker (config s) of None \<Rightarrow> Map.empty | Some d \<Rightarrow> d)\<rparr>"
  using assms(1,2)
  by (auto simp: should_update_def Let_def docker_config_untyped[OF assms(3)]
      get_node_type_specific_fields_untyped[OF assms(3)])

lemma should_update_typed:
  assumes "can_update c s n = Inr True"
    and "\<not> (node_tags (provider s) n TAG_RAY_NODE_STATUS = Some STATUS_UP_TO_DATE
           \<and> files_up_to_date s n)"
    and "node_tags (provider s) n TAG_RAY_USER_NODE_TYPE = Some t"
    and "available_node_types (config s) t = Some nt"
  shows "should_update c s n =
      Inr \<lparr>ui_node_id = Some n,
           ui_init_commands =
             Some (if num_successful_updates s n > 0 \<and> restart_only (config s) = Some True
                   then []
                   else (case nt_worker_setup_commands nt of
                           Some f \<Rightarrow> f | None \<Rightarrow> worker_setup_commands (config s))),
           ui_start_ray_commands =
             Some (if num_successful_updates s n > 0 \<and> restart_only (config s) = Some True
                   then worker_start_ray_commands (config s)
                   else if num_successful_updates s n > 0 \<and> no_restart (config s) = Some True
                   then [] else worker_start_ray_commands (config s)),
           ui_docker_config =
             Some (case docker (config s) of
                     None \<Rightarrow> Map.empty
                   | Some d \<Rightarrow> d ++ (case nt_docker nt of Some nd \<Rightarrow> nd | None \<Rightarrow> d))\<rparr>"
  using assms(1,2)
  by (auto simp: should_update_def Let_def docker_config_typed[OF assms(3,4)]
      get_node_type_specific_fields_typed[OF assms(3,4)])

lemma workers_provider:
  "provider s' = provider s \<Longrightarrow> workers s' = workers s"
  by (simp add: workers_def)

lemma workers_after_terminate:
  assumes "workers s = Inr ws"
  shows "workers (s\<lparr>provider := terminate_nodes t (provider s)\<rparr>)
       = Inr (filter (\<lambda>n. n \<notin> set t) ws)"
proof -
  from assms have o: "outage (provider s) = None"
    by (auto simp: workers_def non_terminated_nodes_def split: option.splits)
  from assms o have ws: "ws = filter (\<lambda>n. node_tags (provider s) n TAG_RAY_NODE_KIND
        = Some NODE_KIND_WORKER) (node_list (provider s))"
    by (simp add: workers_def non_terminated_nodes_def)
  show ?thesis
    using o by (simp add: workers_def non_terminated_nodes_def terminate_nodes_def ws
        conj_commute)
qed

lemma terminate_and_reread_workers:
  assumes "workers s = Inr ws"
  shows "terminate_and_reread t ws s =
      (Inr (filter (\<lambda>n. n \<notin> set t) ws),
       if t \<noteq> [] then s\<lparr>provider := terminate_nodes t (provider s)\<rparr> else s)"
  using workers_after_terminate[OF assms, of t]
  by (simp add: terminate_and_reread_def Let_def)

lemma terminate_phase_excess:
  assumes w: "workers s = Inr ws" and aw: "all_workers s = Inr aw"
    and io: "idle_or_outdated c now ws
               (s\<lparr>load_metrics := prune_active_ips (map (internal_ip (provider s)) aw)
                                     (load_metrics s)\<rparr>) = Inr t2"
  shows "\<exists>ns' ts. excess_loop (filter (\<lambda>n. n \<notin> set t2) ws) [] (max_workers (config s))
            = (ns', ts)
      \<and> filter (\<lambda>n. n \<notin> set t2) ws = ns' @ rev ts
      \<and> fst (terminate_phase c now s) = Inr ()
      \<and> node_list (provider (snd (terminate_phase c now s)))
          = filter (\<lambda>n. n \<notin> set t2 \<and> n \<notin> set ts) (node_list (provider s))"
proof -
  define s1 where "s1 = s\<lparr>load_metrics :=
      prune_active_ips (map (internal_ip (provider s)) aw) (load_metrics s)\<rparr>"
  define s2 where "s2 = (if t2 \<noteq> [] then s1\<lparr>provider := terminate_nodes t2 (provider s1)\<rparr>
                         else s1)"
  define ws2 where "ws2 = filter (\<lambda>n. n \<notin> set t2) ws"
  have w1: "workers s1 = Inr ws" using w by (simp add: s1_def workers_def)
  have tr: "terminate_and_reread t2 ws s1 = (Inr ws2, s2)"
    using terminate_and_reread_workers[OF w1, of t2] by (simp add: s2_def ws2_def)
  have w2: "workers s2 = Inr ws2"
    using workers_after_terminate[OF w1, of t2] w1 by (simp add: s2_def ws2_def)
  have c2: "config s2 = config s" by (simp add: s2_def s1_def)
  have nl2: "node_list (provider s2) = filter (\<lambda>n. n \<notin> set t2) (node_list (provider s))"
    by (simp add: s2_def s1_def terminate_nodes_def)
  obtain ns' ts where ex: "excess_loop ws2 [] (max_workers (config s)) = (ns', ts)"
    by (cases "excess_loop ws2 [] (max_workers (config s))")
  from excess_loop_suffix[OF ex] have sp: "ws2 = ns' @ rev ts" by simp
  define s3 where "s3 = (if ts \<noteq> [] then s2\<lparr>provider := terminate_nodes ts (provider s2)\<rparr>
                         else s2)"
  have te: "\<exists>r3. terminate_excess ws2 s2 = (Inr r3, s3)"
    using workers_after_terminate[OF w2, of ts] ex
    by (simp add: terminate_excess_def c2 terminate_and_reread_def Let_def s3_def
        del: excess_loop.simps)
  then obtain r3 where te': "terminate_excess ws2 s2 = (Inr r3, s3)" by blast
  have tp: "terminate_phase c now s = (Inr (), s3)"
    using w aw io tr te'
    by (simp add: terminate_phase_def s1_def[symmetric] Let_def del: excess_loop.simps)
  have nl3: "node_list (provider s3)
      = filter (\<lambda>n. n \<notin> set t2 \<and> n \<notin> set ts) (node_list (provider s))"
    by (simp add: s3_def nl2 terminate_nodes_def)
  show ?thesis
    using ex sp tp nl3 by (simp add: ws2_def del: excess_loop.simps)
qed

section \<open>Claims\<close>

subsection \<open>C1: an outdated launch hash overrides both protections\<close>

text \<open>
  C1. For every worker whose \<^verbatim>\<open>RAY_LAUNCH_CONFIG\<close> tag differs from the launch hash
  computed from the current config (\<^verbatim>\<open>launch_config_ok\<close> is false), the step-2 walk adds
  the node to the termination set, whatever \<^verbatim>\<open>min_workers\<close> and the request-resources
  bin packing say about it: when step 2 returns, its result contains the node; over nodes
  with declared types the walk does return, for any counters and any map of nodes allowed
  to terminate; and the loop body takes the \<^verbatim>\<open>continue\<close> only for a node whose launch
  hash matches.
\<close>

theorem stale_launch_hash_terminated:
  "(idle_or_outdated c now nodes s = Inr r \<and> n \<in> set nodes
      \<and> launch_config_ok c s n = Inr False \<longrightarrow> n \<in> set r)
   \<and> ((\<forall>m\<in>set ns. node_type_declared s m) \<and> n \<in> set ns
      \<and> launch_config_ok c s n = Inr False
      \<longrightarrow> (\<exists>r'. walk c s lu h al ns counts acc = Inr r' \<and> n \<in> set r'))
   \<and> (walk_step c s lu h al n' counts' = Inr (Skip, cs)
      \<longrightarrow> launch_config_ok c s n' = Inr True)"
proof -
  have a: "idle_or_outdated c now nodes s = Inr r \<and> n \<in> set nodes
      \<and> launch_config_ok c s n = Inr False \<longrightarrow> n \<in> set r"
    using idle_or_outdated_stale by blast
  have b: "(\<forall>m\<in>set ns. node_type_declared s m) \<and> n \<in> set ns
      \<and> launch_config_ok c s n = Inr False
      \<longrightarrow> (\<exists>r'. walk c s lu h al ns counts acc = Inr r' \<and> n \<in> set r')"
  proof (intro impI, elim conjE)
    assume d: "\<forall>m\<in>set ns. node_type_declared s m" and n: "n \<in> set ns"
      and l: "launch_config_ok c s n = Inr False"
    from walk_total[OF d] obtain r' where w: "walk c s lu h al ns counts acc = Inr r'" by blast
    from walk_stale[OF w n l] w show "\<exists>r'. walk c s lu h al ns counts acc = Inr r' \<and> n \<in> set r'"
      by blast
  qed
  have cc: "walk_step c s lu h al n' counts' = Inr (Skip, cs)
      \<longrightarrow> launch_config_ok c s n' = Inr True"
    using walk_step_skip by blast
  from a b cc show ?thesis by blast
qed

theorem stale_launch_hash_terminated_witness:
  "launch_config_ok ex_collab ex_stale_first ''n1'' = Inr False
   \<and> keep_min_worker_of_node_type ex_stale_first ''n1'' (\<lambda>_. 0) = Inr (True, (\<lambda>_. 0)(''A'' := 1))
   \<and> idle_or_outdated ex_collab 1000 [''n1'', ''n2''] ex_stale_first = Inr [''n1'']
   \<and> ''n1'' \<in> set [''n1'', ''n2'']
   \<and> node_type_declared ex_stale_first ''n1'' \<and> node_type_declared ex_stale_first ''n2''
   \<and> walk ex_collab ex_stale_first [(''ip-n1'', 990), (''ip-n2'', 980)] 700 Map.empty
        [''n1'', ''n2''] (\<lambda>_. 0) [] = Inr [''n1'']
   \<and> walk_step ex_collab ex_stale_first [(''ip-n1'', 990), (''ip-n2'', 980)] 700 Map.empty
        ''n2'' ((\<lambda>_. 0)(''A'' := 1)) = Inr (Skip, (\<lambda>_. 0)(''A'' := 2))
   \<and> launch_config_ok ex_collab ex_stale_first ''n2'' = Inr True"
  using stale_launch_hash_terminated[where c = ex_collab and now = 1000
      and nodes = "[''n1'', ''n2'']" and s = ex_stale_first and r = "[''n1'']"
      and n = "''n1''" and ns = "[''n1'', ''n2'']"
      and lu = "[(''ip-n1'', 990), (''ip-n2'', 980)]" and h = 700 and al = Map.empty
      and counts = "\<lambda>_. 0" and acc = "[]" and n' = "''n2''"
      and counts' = "(\<lambda>_. 0)(''A'' := 1)" and cs = "(\<lambda>_. 0)(''A'' := 2)"]
  by (simp add: ex_stale_first_def ex_defs tick_defs node_type_declared_def)

subsection \<open>C2: one updater per node\<close>

text \<open>
  C2. The updaters dict never holds two entries for one NodeID: its keys stay distinct
  through the reap, the dispatch, a recovery and a whole call of \<^verbatim>\<open>update\<close>.
  \<^verbatim>\<open>can_update\<close> returns false for a node that (a) is a key of the updaters, (b) has an
  outdated launch hash, or (c) has a failed update; when \<^verbatim>\<open>can_update\<close> is false,
  \<^verbatim>\<open>should_update\<close> returns the null sentinel and \<^verbatim>\<open>recover_if_needed\<close> changes
  nothing. A recovery either leaves the updaters as they are or appends one entry for a
  node that had none, and a dispatch over distinct nodes only appends entries for nodes
  that had none.
\<close>

theorem updaters_one_entry_per_node:
  "(map_of (updaters s) a \<noteq> None \<longrightarrow> can_update c s a = Inr False)
   \<and> (launch_config_ok c s b = Inr False \<longrightarrow> can_update c s b = Inr False)
   \<and> (launch_config_ok c s f = Inr True \<and> num_failed_updates s f > 0
        \<longrightarrow> can_update c s f = Inr False)
   \<and> (can_update c s n = Inr False
        \<longrightarrow> should_update c s n = Inr no_update
            \<and> recover_if_needed c n now s = (Inr (), s))
   \<and> (updaters (snd (recover_if_needed c m now s)) = updaters s
        \<or> (map_of (updaters s) m = None
            \<and> (\<exists>u. updaters (snd (recover_if_needed c m now s)) = updaters s @ [(m, u)])))
   \<and> (distinct nodes
        \<longrightarrow> (\<exists>new. updaters (snd (dispatch c nodes s)) = updaters s @ new
               \<and> fst ` set new \<inter> fst ` set (updaters s) = {} \<and> distinct (map fst new)))
   \<and> (distinct (map fst (updaters s))
        \<longrightarrow> distinct (map fst (updaters (snd (reap s))))
            \<and> distinct (map fst (updaters (snd (dispatch c nodes s))))
            \<and> distinct (map fst (updaters (snd (recover_if_needed c m now s))))
            \<and> (\<forall>r s'. update c loaded now s = Some (r, s')
                   \<longrightarrow> distinct (map fst (updaters s'))))"
proof -
  have a: "map_of (updaters s) a \<noteq> None \<longrightarrow> can_update c s a = Inr False"
    by (simp add: can_update_def)
  have b: "launch_config_ok c s b = Inr False \<longrightarrow> can_update c s b = Inr False"
    by (simp add: can_update_def)
  have cc: "launch_config_ok c s f = Inr True \<and> num_failed_updates s f > 0
        \<longrightarrow> can_update c s f = Inr False"
    by (simp add: can_update_def)
  have d: "can_update c s n = Inr False
        \<longrightarrow> should_update c s n = Inr no_update \<and> recover_if_needed c n now s = (Inr (), s)"
    by (simp add: should_update_def recover_if_needed_def)
  have e: "updaters (snd (recover_if_needed c m now s)) = updaters s
        \<or> (map_of (updaters s) m = None
            \<and> (\<exists>u. updaters (snd (recover_if_needed c m now s)) = updaters s @ [(m, u)]))"
    using recover_if_needed_frame[of c m now s "fst (recover_if_needed c m now s)"
        "snd (recover_if_needed c m now s)"] by simp
  have f: "distinct nodes
        \<longrightarrow> (\<exists>new. updaters (snd (dispatch c nodes s)) = updaters s @ new
               \<and> fst ` set new \<inter> fst ` set (updaters s) = {} \<and> distinct (map fst new))"
    using dispatch_appends by blast
  have g: "distinct (map fst (updaters s))
        \<longrightarrow> distinct (map fst (updaters (snd (reap s))))
            \<and> distinct (map fst (updaters (snd (dispatch c nodes s))))
            \<and> distinct (map fst (updaters (snd (recover_if_needed c m now s))))
            \<and> (\<forall>r s'. update c loaded now s = Some (r, s')
                   \<longrightarrow> distinct (map fst (updaters s')))"
    using reap_frame[of s "fst (reap s)" "snd (reap s)"]
      dispatch_frame[of c nodes s "fst (dispatch c nodes s)" "snd (dispatch c nodes s)"]
      recover_if_needed_distinct[of c m now s "fst (recover_if_needed c m now s)"
        "snd (recover_if_needed c m now s)"]
      update_distinct[of c loaded now s]
    by auto
  from a b cc d e f g show ?thesis by blast
qed

theorem updaters_one_entry_per_node_witness:
  "map_of (updaters ex_four_workers) ''n1'' \<noteq> None
   \<and> can_update ex_collab ex_four_workers ''n1'' = Inr False
   \<and> launch_config_ok ex_collab ex_four_workers ''n2'' = Inr False
   \<and> can_update ex_collab ex_four_workers ''n2'' = Inr False
   \<and> launch_config_ok ex_collab ex_four_workers ''n3'' = Inr True
   \<and> num_failed_updates ex_four_workers ''n3'' > 0
   \<and> can_update ex_collab ex_four_workers ''n3'' = Inr False
   \<and> should_update ex_collab ex_four_workers ''n1'' = Inr no_update
   \<and> recover_if_needed ex_collab ''n1'' 1000 ex_four_workers = (Inr (), ex_four_workers)
   \<and> map fst (updaters (snd (recover_if_needed ex_collab ''n4'' 1000 ex_four_workers)))
       = [''n1'', ''n4'']
   \<and> distinct [''n1'', ''n2'', ''n3'', ''n4'']
   \<and> map fst (updaters (snd (dispatch ex_collab [''n1'', ''n2'', ''n3'', ''n4'']
                                  ex_four_workers))) = [''n1'', ''n4'']
   \<and> distinct (map fst (updaters ex_four_workers))
   \<and> map (\<lambda>(r, s). (r, map fst (updaters s), node_list (provider s)))
        (case update ex_collab None 1000 ex_four_workers of None \<Rightarrow> [] | Some x \<Rightarrow> [x])
       = [(Inr (), [''n1'', ''n4''], [''n1'', ''n3'', ''n4''])]"
  using updaters_one_entry_per_node[where s = ex_four_workers and c = ex_collab
      and a = "''n1''" and b = "''n2''" and f = "''n3''" and n = "''n1''" and m = "''n4''"
      and now = 1000 and nodes = "[''n1'', ''n2'', ''n3'', ''n4'']" and loaded = None]
  by (simp add: ex_four_workers_def ex_defs tick_defs node_defs)

subsection \<open>C3: the nodes allowed to terminate\<close>



subsection \<open>C4: the failure counter\<close>

text \<open>
  C4. When the tick raises an exception, \<^verbatim>\<open>update\<close> increments \<^verbatim>\<open>num_failures\<close> by
  exactly one, unless the configured provider type is \<^verbatim>\<open>kubernetes\<close> and the exception is
  a \<^verbatim>\<open>MaxRetryError\<close>, in which case the counter keeps its value; \<^verbatim>\<open>update\<close> re-raises the
  exception if and only if the counter then exceeds \<^verbatim>\<open>max_failures\<close>, and returns
  normally otherwise.
\<close>

theorem update_failure_accounting:
  assumes "update_tick c now (reset loaded s) = Some (Inl e, s1)"
  shows "\<exists>r s2. update c loaded now s = Some (r, s2)
     \<and> num_failures s2 =
         (if provider_type (config (reset loaded s)) = ''kubernetes'' \<and> is_MaxRetryError e
          then num_failures s else num_failures s + 1)
     \<and> (r = Inl e \<longleftrightarrow> num_failures s2 > max_failures s)
     \<and> (r = Inr () \<longleftrightarrow> \<not> num_failures s2 > max_failures s)"
proof -
  note rf = reset_frame[of loaded s]
  from update_tick_frame[OF assms] rf have
    f: "num_failures s1 = num_failures s" "max_failures s1 = max_failures s"
       "config s1 = config (reset loaded s)" by simp_all
  show ?thesis
    using assms f by (auto simp: update_def handle_tick_exception_def Let_def)
qed

theorem update_failure_accounting_witness:
  "update_tick ex_collab 100 (reset None ex_k8s_outage)
     = Some (Inl MaxRetryError, ex_k8s_outage\<lparr>last_update_time := 100\<rparr>)
   \<and> update ex_collab None 100 ex_k8s_outage
     = Some (Inr (), ex_k8s_outage\<lparr>last_update_time := 100\<rparr>)
   \<and> update_tick ex_collab 100 (reset None (ex_no_heartbeat_yet\<lparr>max_failures := 0\<rparr>))
     = Some (Inl (ValueError ''min() arg is an empty sequence''),
             ex_no_heartbeat_yet\<lparr>max_failures := 0, last_update_time := 100\<rparr>)
   \<and> update ex_collab None 100 (ex_no_heartbeat_yet\<lparr>max_failures := 0\<rparr>)
     = Some (Inl (ValueError ''min() arg is an empty sequence''),
             ex_no_heartbeat_yet\<lparr>max_failures := 0, last_update_time := 100,
                                  num_failures := 1\<rparr>)"
  using update_failure_accounting[where c = ex_collab and now = 100 and loaded = None
      and s = ex_k8s_outage and e = MaxRetryError
      and ?s1.0 = "ex_k8s_outage\<lparr>last_update_time := 100\<rparr>"]
    update_failure_accounting[where c = ex_collab and now = 100 and loaded = None
      and s = "ex_no_heartbeat_yet\<lparr>max_failures := 0\<rparr>"
      and e = "ValueError ''min() arg is an empty sequence''"
      and ?s1.0 = "ex_no_heartbeat_yet\<lparr>max_failures := 0, last_update_time := 100\<rparr>"]
  by (simp add: ex_k8s_outage_def ex_no_heartbeat_yet_def ex_defs tick_defs node_defs)

subsection \<open>C5: marking reaped nodes active\<close>

text \<open>
  C5. The reap of step 5 is to count every finished updater as a success or a failure,
  delete it from the updaters and mark the node's IP active. With two finished updaters,
  on \<open>n1\<close> and \<open>n2\<close>, both are counted and deleted, and \<^verbatim>\<open>mark_active\<close> is called once,
  with the IP of \<open>n2\<close>: line 245 stands after the loop, where \<^verbatim>\<open>node_id\<close> is the last
  completed node. The IP of \<open>n1\<close> is not marked.
\<close>

theorem reap_marks_only_last_completed:
  "fst (reap ex_two_completed) = Inr ()
   \<and> updaters (snd (reap ex_two_completed)) = []
   \<and> num_successful_updates (snd (reap ex_two_completed)) ''n1'' = 1
   \<and> num_failed_updates (snd (reap ex_two_completed)) ''n2'' = 1
   \<and> internal_ip (provider ex_two_completed) ''n1'' = ''ip-n1''
   \<and> marked_active (load_metrics (snd (reap ex_two_completed))) = [''ip-n2'']
   \<and> ''ip-n1'' \<notin> set (marked_active (load_metrics (snd (reap ex_two_completed))))"
  by (simp add: ex_two_completed_def ex_defs node_defs)

subsection \<open>C6: which workers step 3 terminates\<close>

text \<open>
  C6, as stated, fails: step 3 does not take the least recently used workers. With the
  workers listed as \<open>a\<close>, \<open>b\<close>, \<open>b\<close> the more recently used, no worker idle and a
  cluster-wide \<^verbatim>\<open>max_workers\<close> of 1, the last-used ordering is \<open>b\<close>, \<open>a\<close>, and the tick
  terminates \<open>b\<close> and keeps \<open>a\<close>.
\<close>

theorem excess_pops_most_recently_used:
  "sort_based_on_last_used (provider ex_two_workers) [''a'', ''b'']
       (last_used_time_by_ip (load_metrics ex_two_workers)) = Inr [''b'', ''a'']
   \<and> workers ex_two_workers = Inr [''a'', ''b'']
   \<and> idle_or_outdated ex_collab 110 [''a'', ''b''] ex_two_workers = Inr []
   \<and> fst (terminate_phase ex_collab 110 ex_two_workers) = Inr ()
   \<and> node_list (provider (snd (terminate_phase ex_collab 110 ex_two_workers))) = [''a'']"
  by (simp add: ex_two_workers_def ex_defs tick_defs)

text \<open>
  C6, amended. In step 3, whenever the number of non-terminated workers exceeds the
  cluster-wide \<^verbatim>\<open>max_workers\<close>, the nodes selected for excess termination are popped from
  the tail of the worker list as \<^verbatim>\<open>self.workers()\<close> returned it, that is the provider's
  list of workers \<open>ws\<close> without the nodes \<open>t2\<close> that step 2 terminated: that list splits
  into the survivors and the reversed terminated nodes, the first node terminated is its
  last one, and after steps 1 to 3 the provider has lost exactly the nodes of step 2 and
  those popped. Last-used times play no part in step 3. In scenario 2 (5 workers of a type
  with \<^verbatim>\<open>min_workers\<close> 2 and \<^verbatim>\<open>max_workers\<close> 5, all idle) it is step 2 that terminates
  3 workers, and the 2 most recently used remain.
\<close>

theorem excess_taken_from_tail_of_worker_list:
  "(workers s = Inr ws \<and> all_workers s = Inr aw
      \<and> idle_or_outdated c now ws
            (s\<lparr>load_metrics := prune_active_ips (map (internal_ip (provider s)) aw)
                                  (load_metrics s)\<rparr>) = Inr t2
      \<longrightarrow> (\<exists>ns1 ts1.
             excess_loop (filter (\<lambda>n. n \<notin> set t2) ws) [] (max_workers (config s))
               = (ns1, ts1)
             \<and> filter (\<lambda>n. n \<notin> set t2) ws = ns1 @ rev ts1
             \<and> fst (terminate_phase c now s) = Inr ()
             \<and> node_list (provider (snd (terminate_phase c now s)))
                 = filter (\<lambda>n. n \<notin> set t2 \<and> n \<notin> set ts1) (node_list (provider s))))
   \<and> (excess_loop nodes [] maxw = (ns', ts) \<longrightarrow> nodes = ns' @ rev ts)
   \<and> (excess_loop nodes [] maxw = (ns', ts) \<and> int (length nodes) > maxw \<and> nodes \<noteq> []
        \<longrightarrow> ts \<noteq> [] \<and> hd ts = last nodes)
   \<and> fst (terminate_phase ex_collab 1000 ex_scenario_2) = Inr ()
   \<and> node_list (provider (snd (terminate_phase ex_collab 1000 ex_scenario_2)))
       = [''n2'', ''n4'']"
proof -
  have l: "workers s = Inr ws \<and> all_workers s = Inr aw
      \<and> idle_or_outdated c now ws
            (s\<lparr>load_metrics := prune_active_ips (map (internal_ip (provider s)) aw)
                                  (load_metrics s)\<rparr>) = Inr t2
      \<longrightarrow> (\<exists>ns1 ts1.
             excess_loop (filter (\<lambda>n. n \<notin> set t2) ws) [] (max_workers (config s))
               = (ns1, ts1)
             \<and> filter (\<lambda>n. n \<notin> set t2) ws = ns1 @ rev ts1
             \<and> fst (terminate_phase c now s) = Inr ()
             \<and> node_list (provider (snd (terminate_phase c now s)))
                 = filter (\<lambda>n. n \<notin> set t2 \<and> n \<notin> set ts1) (node_list (provider s)))"
    using terminate_phase_excess[of s ws aw c now t2] by blast
  have a: "excess_loop nodes [] maxw = (ns', ts) \<longrightarrow> nodes = ns' @ rev ts"
    using excess_loop_suffix[of nodes "[]" maxw ns' ts] by auto
  have b: "excess_loop nodes [] maxw = (ns', ts) \<and> int (length nodes) > maxw \<and> nodes \<noteq> []
        \<longrightarrow> ts \<noteq> [] \<and> hd ts = last nodes"
    using excess_loop_first[of maxw nodes ns' ts] by blast
  have c: "fst (terminate_phase ex_collab 1000 ex_scenario_2) = Inr ()
      \<and> node_list (provider (snd (terminate_phase ex_collab 1000 ex_scenario_2)))
          = [''n2'', ''n4'']"
    by (simp add: ex_scenario_2_def ex_defs tick_defs)
  from l a b c show ?thesis by blast
qed

theorem excess_taken_from_tail_of_worker_list_witness:
  "workers ex_two_workers = Inr [''a'', ''b'']
   \<and> all_workers ex_two_workers = Inr [''a'', ''b'']
   \<and> idle_or_outdated ex_collab 110 [''a'', ''b'']
        (ex_two_workers\<lparr>load_metrics :=
           prune_active_ips (map (internal_ip (provider ex_two_workers)) [''a'', ''b''])
             (load_metrics ex_two_workers)\<rparr>) = Inr []
   \<and> excess_loop [''a'', ''b''] [] (max_workers (config ex_two_workers)) = ([''a''], [''b''])
   \<and> node_list (provider (snd (terminate_phase ex_collab 110 ex_two_workers))) = [''a'']
   \<and> int (length [''a'', ''b'']) > 1 \<and> [''a'', ''b''] \<noteq> []
   \<and> [''a'', ''b''] = [''a''] @ rev [''b'']
   \<and> hd [''b''] = last [''a'', ''b'']"
  using excess_taken_from_tail_of_worker_list[where s = ex_two_workers
      and ws = "[''a'', ''b'']" and aw = "[''a'', ''b'']" and c = ex_collab and now = 110
      and ?t2.0 = "[]" and nodes = "[''a'', ''b'']" and maxw = 1
      and ns' = "[''a'']" and ts = "[''b'']"]
  by (simp add: ex_two_workers_def ex_defs tick_defs)

subsection \<open>C7: the update interval\<close>

text \<open>
  C7, as stated, fails: a tick that fails does push back the time at which the next tick
  body may run. On a fresh cluster with \<^verbatim>\<open>last_update_time\<close> 0 and an interval of 5
  seconds, the tick at time 100 raises, having set \<^verbatim>\<open>last_update_time\<close> to 100, and the
  tick at time 101 then returns at the gate, although no tick has succeeded; without the
  failed tick the body would have run at time 101.
\<close>

theorem failed_tick_pushes_back_next_tick:
  "update_tick ex_collab 100 ex_no_heartbeat_yet =
     Some (Inl (ValueError ''min() arg is an empty sequence''),
           ex_no_heartbeat_yet\<lparr>last_update_time := 100\<rparr>)
   \<and> last_update_time ex_no_heartbeat_yet = 0
   \<and> update_tick ex_collab 101 (ex_no_heartbeat_yet\<lparr>last_update_time := 100\<rparr>) =
       Some (Inr (), ex_no_heartbeat_yet\<lparr>last_update_time := 100\<rparr>)
   \<and> update_tick ex_collab 101 ex_no_heartbeat_yet =
       Some (Inl (ValueError ''min() arg is an empty sequence''),
             ex_no_heartbeat_yet\<lparr>last_update_time := 101\<rparr>)"
  by (simp add: ex_no_heartbeat_yet_def ex_defs tick_defs)

text \<open>
  C7, amended. If fewer than \<^verbatim>\<open>update_interval_s\<close> seconds have elapsed since
  \<^verbatim>\<open>last_update_time\<close>, \<^verbatim>\<open>_update\<close> returns immediately and leaves the whole state,
  provider and launch queue included, as it was. \<^verbatim>\<open>last_update_time\<close> is the time of the
  last tick that passed this gate, whether it then succeeded or failed: a tick that passes
  the gate and returns or raises leaves \<^verbatim>\<open>last_update_time\<close> equal to its own time.
\<close>

theorem update_interval_gate:
  "(now - last_update_time s < update_interval_s s \<longrightarrow> update_tick c now s = Some (Inr (), s))
   \<and> (\<not> now' - last_update_time s2 < update_interval_s s2
        \<and> update_tick c now' s2 = Some (r, s')
        \<longrightarrow> last_update_time s' = now')"
  using update_tick_gate[of now s c] update_tick_frame[of c now' s2 r s'] by auto

theorem update_interval_gate_witness:
  "(3::real) - last_update_time ex_scenario_2 < update_interval_s ex_scenario_2
   \<and> update_tick ex_collab 3 ex_scenario_2 = Some (Inr (), ex_scenario_2)
   \<and> \<not> (100::real) - last_update_time ex_no_heartbeat_yet < update_interval_s ex_no_heartbeat_yet
   \<and> update_tick ex_collab 100 ex_no_heartbeat_yet =
       Some (Inl (ValueError ''min() arg is an empty sequence''),
             ex_no_heartbeat_yet\<lparr>last_update_time := 100\<rparr>)
   \<and> last_update_time (ex_no_heartbeat_yet\<lparr>last_update_time := 100\<rparr>) = 100"
  using update_interval_gate[where now = 3 and s = ex_scenario_2 and c = ex_collab
      and now' = 100 and ?s2.0 = ex_no_heartbeat_yet
      and r = "Inl (ValueError ''min() arg is an empty sequence'')"
      and s' = "ex_no_heartbeat_yet\<lparr>last_update_time := 100\<rparr>"]
  by (simp add: ex_no_heartbeat_yet_def ex_scenario_2_def ex_defs tick_defs)

subsection \<open>C8: the update decision\<close>

text \<open>
  C8. \<^verbatim>\<open>should_update\<close> returns the null sentinel exactly when \<^verbatim>\<open>can_update\<close> is false,
  or the node's status tag is \<^verbatim>\<open>up_to_date\<close> and its files are up to date. Otherwise it
  returns an instruction for the node whose commands are \<open>([], worker_start_ray_commands)\<close>
  if the node has a successful update and \<^verbatim>\<open>restart_only\<close> is set, the node type's
  \<^verbatim>\<open>worker_setup_commands\<close> and \<open>[]\<close> if it has a successful update and \<^verbatim>\<open>no_restart\<close>
  is set, and the node type's \<^verbatim>\<open>worker_setup_commands\<close> and
  \<^verbatim>\<open>worker_start_ray_commands\<close> in every other case. The node type's
  \<^verbatim>\<open>worker_setup_commands\<close> are those of the entry of the node's type in
  \<^verbatim>\<open>available_node_types\<close> when the node has a type tag and the entry has the key, and
  the cluster-wide ones otherwise; the docker config is the cluster's, updated with the
  entry's. This is stated for a node without a type tag and for a node whose type tag names
  a declared type.
\<close>

theorem should_update_decision:
  "((should_update c s n = Inr no_update) \<longleftrightarrow>
      (can_update c s n = Inr False \<or>
       (can_update c s n = Inr True
        \<and> node_tags (provider s) n TAG_RAY_NODE_STATUS = Some STATUS_UP_TO_DATE
        \<and> files_up_to_date s n)))
   \<and> (can_update c s u = Inr True
      \<and> \<not> (node_tags (provider s) u TAG_RAY_NODE_STATUS = Some STATUS_UP_TO_DATE
             \<and> files_up_to_date s u)
      \<and> node_tags (provider s) u TAG_RAY_USER_NODE_TYPE = None
      \<longrightarrow> should_update c s u =
           Inr \<lparr>ui_node_id = Some u,
                ui_init_commands =
                  Some (if num_successful_updates s u > 0
                           \<and> restart_only (config s) = Some True
                        then [] else worker_setup_commands (config s)),
                ui_start_ray_commands =
                  Some (if num_successful_updates s u > 0
                           \<and> restart_only (config s) = Some True
                        then worker_start_ray_commands (config s)
                        else if num_successful_updates s u > 0
                                \<and> no_restart (config s) = Some True
                        then [] else worker_start_ray_commands (config s)),
                ui_docker_config =
                  Some (case docker (config s) of None \<Rightarrow> Map.empty | Some d \<Rightarrow> d)\<rparr>)
   \<and> (can_update c s m = Inr True
      \<and> \<not> (node_tags (provider s) m TAG_RAY_NODE_STATUS = Some STATUS_UP_TO_DATE
             \<and> files_up_to_date s m)
      \<and> node_tags (provider s) m TAG_RAY_USER_NODE_TYPE = Some t
      \<and> available_node_types (config s) t = Some nt
      \<longrightarrow> should_update c s m =
           Inr \<lparr>ui_node_id = Some m,
                ui_init_commands =
                  Some (if num_successful_updates s m > 0
                           \<and> restart_only (config s) = Some True
                        then []
                        else (case nt_worker_setup_commands nt of
                                Some f \<Rightarrow> f | None \<Rightarrow> worker_setup_commands (config s))),
                ui_start_ray_commands =
                  Some (if num_successful_updates s m > 0
                           \<and> restart_only (config s) = Some True
                        then worker_start_ray_commands (config s)
                        else if num_successful_updates s m > 0
                                \<and> no_restart (config s) = Some True
                        then [] else worker_start_ray_commands (config s)),
                ui_docker_config =
                  Some (case docker (config s) of
                          None \<Rightarrow> Map.empty
                        | Some d \<Rightarrow>
                            d ++ (case nt_docker nt of Some nd \<Rightarrow> nd | None \<Rightarrow> d))\<rparr>)"
  using should_update_null_iff[of c s n] should_update_untyped[of c s u]
    should_update_typed[of c s m t nt]
  by blast

theorem should_update_decision_witness:
  "can_update ex_collab ex_override ''u1'' = Inr True
   \<and> \<not> files_up_to_date ex_override ''u1''
   \<and> node_tags (provider ex_override) ''u1'' TAG_RAY_USER_NODE_TYPE = None
   \<and> should_update ex_collab ex_override ''u1'' =
       Inr \<lparr>ui_node_id = Some ''u1'', ui_init_commands = Some [''install''],
            ui_start_ray_commands = Some [''start''],
            ui_docker_config = Some [''image'' \<mapsto> ''base'']\<rparr>
   \<and> should_update ex_collab ex_override ''u1'' \<noteq> Inr no_update
   \<and> can_update ex_collab ex_override ''c1'' = Inr True
   \<and> \<not> files_up_to_date ex_override ''c1''
   \<and> node_tags (provider ex_override) ''c1'' TAG_RAY_USER_NODE_TYPE = Some ''C''
   \<and> available_node_types (config ex_override) ''C'' = Some ex_type_C
   \<and> nt_worker_setup_commands ex_type_C = Some [''typed-install'']
   \<and> num_successful_updates ex_override ''c1'' > 0
   \<and> no_restart (config ex_override) = Some True
   \<and> should_update ex_collab ex_override ''c1'' =
       Inr \<lparr>ui_node_id = Some ''c1'', ui_init_commands = Some [''typed-install''],
            ui_start_ray_commands = Some [],
            ui_docker_config = Some [''image'' \<mapsto> ''typed'']\<rparr>"
  using should_update_decision[where c = ex_collab and s = ex_override
      and n = "''u1''" and u = "''u1''" and m = "''c1''" and t = "''C''"
      and nt = ex_type_C]
  by (simp add: ex_override_def ex_type_C_def ex_defs tick_defs node_defs)

subsection \<open>C9: a tick before any heartbeat\<close>

text \<open>
  C9. If \<^verbatim>\<open>last_used_time_by_ip\<close> is empty when a tick body runs (the provider being
  reachable and the update interval elapsed), \<^verbatim>\<open>_sort_based_on_last_used\<close> takes \<^verbatim>\<open>min\<close>
  of an empty collection and raises \<^verbatim>\<open>ValueError\<close>, whatever the worker list is; the tick
  fails with that exception and \<^verbatim>\<open>update\<close> counts it in \<^verbatim>\<open>num_failures\<close>.
\<close>

theorem empty_last_used_fails_tick:
  assumes "last_used_time_by_ip (load_metrics s) = []" and "outage (provider s) = None"
    and "\<not> now - last_update_time s < update_interval_s s"
  shows "(\<exists>s1. update_tick c now (reset loaded s) =
            Some (Inl (ValueError ''min() arg is an empty sequence''), s1))
     \<and> (\<exists>r s2. update c loaded now s = Some (r, s2)
           \<and> num_failures s2 = num_failures s + 1
           \<and> (r = Inl (ValueError ''min() arg is an empty sequence'')
                \<longleftrightarrow> num_failures s + 1 > max_failures s)
           \<and> (r = Inr () \<longleftrightarrow> \<not> num_failures s + 1 > max_failures s))"
proof -
  note rf = reset_frame[of loaded s]
  from update_tick_empty_last_used[of "reset loaded s" now c] assms rf obtain s1 where
    t: "update_tick c now (reset loaded s) =
          Some (Inl (ValueError ''min() arg is an empty sequence''), s1)"
    by auto
  from update_tick_frame[OF t] rf have
    f: "num_failures s1 = num_failures s" "max_failures s1 = max_failures s" by simp_all
  show ?thesis
    using t f by (auto simp: update_def handle_tick_exception_def Let_def)
qed

theorem empty_last_used_fails_tick_witness:
  "last_used_time_by_ip (load_metrics ex_no_heartbeat_yet) = []
   \<and> outage (provider ex_no_heartbeat_yet) = None
   \<and> \<not> (100::real) - last_update_time ex_no_heartbeat_yet < update_interval_s ex_no_heartbeat_yet
   \<and> update ex_collab None 100 ex_no_heartbeat_yet
       = Some (Inr (), ex_no_heartbeat_yet\<lparr>last_update_time := 100, num_failures := 1\<rparr>)"
  using empty_last_used_fails_tick[where s = ex_no_heartbeat_yet and now = 100
      and c = ex_collab and loaded = None]
  by (simp add: ex_no_heartbeat_yet_def ex_defs tick_defs node_defs)

subsection \<open>C10: a node type without max\_workers\<close>

text \<open>
  C10. In the min-workers check a node type entry without \<^verbatim>\<open>max_workers\<close> is read as
  \<^verbatim>\<open>max_workers = 0\<close>: for a node of such a type the check answers false (the counters
  count from 0), whatever \<^verbatim>\<open>min_workers\<close> is. So every idle node of such a type that the
  request-resources map does not forbid to terminate is put in the termination set by the
  walk, and by step 2 when no resources are requested.
\<close>

theorem no_max_workers_no_min_protection:
  "(node_tags (provider s) n TAG_RAY_USER_NODE_TYPE = Some t
      \<and> available_node_types (config s) t = Some nt \<and> nt_max_workers nt = None
      \<and> 0 \<le> counts t
      \<longrightarrow> keep_min_worker_of_node_type s n counts = Inr (False, counts(t := counts t + 1)))
   \<and> (node_tags (provider s) n TAG_RAY_USER_NODE_TYPE = Some t
      \<and> available_node_types (config s) t = Some nt \<and> nt_max_workers nt = None
      \<and> walk c s lu h al ns (\<lambda>_. 0) [] = Inr r' \<and> n \<in> set ns \<and> al n \<noteq> Some False
      \<and> map_of lu (internal_ip (provider s) n) = Some tm \<and> tm < h
      \<longrightarrow> n \<in> set r')
   \<and> (node_tags (provider s) n TAG_RAY_USER_NODE_TYPE = Some t
      \<and> available_node_types (config s) t = Some nt \<and> nt_max_workers nt = None
      \<and> idle_or_outdated c now nodes s = Inr r \<and> n \<in> set nodes
      \<and> resource_demand_vector s = []
      \<and> map_of (last_used_time_by_ip (load_metrics s)) (internal_ip (provider s) n) = Some tm'
      \<and> tm' < now - 60 * idle_timeout_minutes (config s)
      \<longrightarrow> n \<in> set r)"
proof -
  have a: "node_tags (provider s) n TAG_RAY_USER_NODE_TYPE = Some t
      \<and> available_node_types (config s) t = Some nt \<and> nt_max_workers nt = None
      \<and> 0 \<le> counts t
      \<longrightarrow> keep_min_worker_of_node_type s n counts = Inr (False, counts(t := counts t + 1))"
    using keep_min_no_max_workers by blast
  have b: "node_tags (provider s) n TAG_RAY_USER_NODE_TYPE = Some t
      \<and> available_node_types (config s) t = Some nt \<and> nt_max_workers nt = None
      \<and> walk c s lu h al ns (\<lambda>_. 0) [] = Inr r' \<and> n \<in> set ns \<and> al n \<noteq> Some False
      \<and> map_of lu (internal_ip (provider s) n) = Some tm \<and> tm < h
      \<longrightarrow> n \<in> set r'"
    using walk_idle_no_max_workers[of c s lu h al ns "\<lambda>_. 0" "[]" r' n t nt tm] by simp
  have cc: "node_tags (provider s) n TAG_RAY_USER_NODE_TYPE = Some t
      \<and> available_node_types (config s) t = Some nt \<and> nt_max_workers nt = None
      \<and> idle_or_outdated c now nodes s = Inr r \<and> n \<in> set nodes
      \<and> resource_demand_vector s = []
      \<and> map_of (last_used_time_by_ip (load_metrics s)) (internal_ip (provider s) n) = Some tm'
      \<and> tm' < now - 60 * idle_timeout_minutes (config s)
      \<longrightarrow> n \<in> set r"
    using idle_or_outdated_no_max_workers[of c now nodes s r n t nt tm'] by blast
  from a b cc show ?thesis by blast
qed

theorem no_max_workers_no_min_protection_witness:
  "node_tags (provider ex_type_B_idle) ''b1'' TAG_RAY_USER_NODE_TYPE = Some ''B''
   \<and> available_node_types (config ex_type_B_idle) ''B'' = Some ex_type_B
   \<and> nt_max_workers ex_type_B = None \<and> nt_min_workers ex_type_B = Some 3
   \<and> keep_min_worker_of_node_type ex_type_B_idle ''b1'' (\<lambda>_. 0)
       = Inr (False, (\<lambda>_. 0)(''B'' := 1))
   \<and> walk ex_collab ex_type_B_idle [(''ip-b1'', 100)] 700 Map.empty [''b1''] (\<lambda>_. 0) []
       = Inr [''b1'']
   \<and> map_of [(''ip-b1'', 100::real)] (internal_ip (provider ex_type_B_idle) ''b1'') = Some 100
   \<and> resource_demand_vector ex_type_B_idle = []
   \<and> idle_or_outdated ex_collab 1000 [''b1''] ex_type_B_idle = Inr [''b1'']"
  using no_max_workers_no_min_protection[where s = ex_type_B_idle and n = "''b1''"
      and t = "''B''" and nt = ex_type_B and counts = "\<lambda>_. 0" and c = ex_collab
      and lu = "[(''ip-b1'', 100)]" and h = 700 and al = Map.empty and ns = "[''b1'']"
      and r' = "[''b1'']" and tm = 100 and now = 1000 and nodes = "[''b1'']"
      and r = "[''b1'']" and tm' = 100]
  by (simp add: ex_type_B_idle_def ex_defs tick_defs)

end
